theory Spec2Isabelle
  imports Complex_Main "HOL-Library.Word"
begin

section \<open>Values, buffers and the outcome of a call\<close>

text \<open>
  A Node.js \<open>Buffer\<close> is a sequence of bytes. A JavaScript number is an IEEE 754 double:
  \<open>Num x\<close> is the finite double whose value is the rational \<open>x\<close>, next to the two
  infinities and \<open>NaN\<close>. Zero carries no sign in the model; no operand of the decoders is
  a negative zero.
\<close>

type_synonym buffer = "8 word list"

datatype jsval = Undefined | NaN | Num rat | PosInfinity | NegInfinity

datatype js_error =
    RangeError
  | TypeError
  | PortError string

datatype payload = Val jsval | Obj "(string \<times> jsval) list"

datatype event = Notify string payload | EmitGlobal string payload

text \<open>
  What one call of \<open>receive\<close> does: it throws, or it returns after emitting the listed
  events, or it returns \<open>super.receive(message)\<close>; the base class \<open>Device\<close> is not part of
  the sources at hand, so that last outcome is kept as it is.
\<close>

datatype outcome = Throws js_error | Emits "event list" | SuperReceive buffer

text \<open>\<open>message[i]\<close>: the byte as a number, \<open>undefined\<close> beyond the end of the buffer.\<close>

definition buf_index :: "buffer \<Rightarrow> nat \<Rightarrow> jsval" where
  "buf_index message i =
     (if i < length message then Num (of_nat (unat (message ! i))) else Undefined)"

text \<open>\<open>v <= c\<close> for a numeric constant \<open>c\<close>: \<open>undefined\<close> and \<open>NaN\<close> compare false.\<close>

fun js_le :: "jsval \<Rightarrow> rat \<Rightarrow> bool" where
  "js_le (Num x) c = (x \<le> c)"
| "js_le Undefined c = False"
| "js_le NaN c = False"
| "js_le PosInfinity c = False"
| "js_le NegInfinity c = True"

text \<open>
  \<open>Buffer.readUInt16LE(offset)\<close> and \<open>Buffer.readInt16LE(offset)\<close>: both bytes must lie
  inside the buffer, otherwise Node raises a \<open>RangeError\<close>.
\<close>

definition readUInt16LE :: "buffer \<Rightarrow> nat \<Rightarrow> js_error + nat" where
  "readUInt16LE message offset =
     (if offset + 2 \<le> length message
      then Inr (unat (message ! offset) + 256 * unat (message ! (offset + 1)))
      else Inl RangeError)"

definition readInt16LE :: "buffer \<Rightarrow> nat \<Rightarrow> js_error + int" where
  "readInt16LE message offset =
     (case readUInt16LE message offset of
        Inl e \<Rightarrow> Inl e
      | Inr v \<Rightarrow> Inr (if v < 32768 then int v else int v - 65536))"

text \<open>
  The little-endian unsigned 16-bit number at \<open>offset\<close>, as a word: the byte at
  \<open>offset + 1\<close> is the high half. It is what \<open>readUInt16LE\<close> computes inside the buffer.
\<close>

definition u16_le :: "buffer \<Rightarrow> nat \<Rightarrow> nat" where
  "u16_le message offset =
     unat (word_cat (message ! (offset + 1)) (message ! offset) :: 16 word)"

text \<open>\<open>Math.floor(n / 4)\<close> for a number \<open>n\<close> read from the buffer.\<close>

definition floor_div4 :: "nat \<Rightarrow> jsval" where
  "floor_div4 n = Num (of_int \<lfloor>(of_nat n :: rat) / 4\<rfloor>)"


section \<open>Double arithmetic\<close>

text \<open>The number of binary digits of a natural number.\<close>

fun bit_length :: "nat \<Rightarrow> nat" where
  "bit_length n = (if n = 0 then 0 else Suc (bit_length (n div 2)))"

declare bit_length.simps [simp del]

definition pow2 :: "int \<Rightarrow> rat" where
  "pow2 e = (if 0 \<le> e then 2 ^ nat e else 1 / 2 ^ nat (- e))"

text \<open>For a positive \<open>x\<close>, the exponent \<open>e\<close> with \<open>2\<^sup>e \<le> x < 2\<^sup>e\<^sup>+\<^sup>1\<close>.\<close>

definition ilog2 :: "rat \<Rightarrow> int" where
  "ilog2 x =
     (if 1 \<le> x then int (bit_length (nat \<lfloor>x\<rfloor>)) - 1
      else - int (bit_length (nat \<lceil>1 / x\<rceil> - 1)))"

text \<open>The nearest integer, a tie going to the even one.\<close>

definition round_half_even :: "rat \<Rightarrow> int" where
  "round_half_even x =
     (let f = \<lfloor>x\<rfloor>; d = x - of_int f
      in if d < 1 / 2 then f
         else if 1 / 2 < d then f + 1
         else if even f then f else f + 1)"

text \<open>
  Rounding an exact result to a double, round-to-nearest with ties to even: 53 significant
  binary digits \<open>m\<close>, the exponent \<open>q\<close> of the last digit never below \<open>-1074\<close>
  (subnormal numbers), and an infinity once the rounded magnitude \<open>m * 2\<^sup>q\<close> reaches
  \<open>2\<^sup>1\<^sup>0\<^sup>2\<^sup>4\<close>, which is when \<open>q\<close> exceeds 971 or \<open>m\<close> is carried to \<open>2\<^sup>5\<^sup>3\<close> at
  \<open>q = 971\<close>. This is also how a decimal literal of the source becomes a number.
\<close>

definition binary64 :: "rat \<Rightarrow> jsval" where
  "binary64 x =
     (if x = 0 then Num 0
      else
        (let q = max (ilog2 \<bar>x\<bar>) (- 1022) - 52;
             m = round_half_even (\<bar>x\<bar> / pow2 q);
             y = of_int m * pow2 q
         in if 971 < q \<or> (q = 971 \<and> 2 ^ 53 \<le> m)
            then (if 0 < x then PosInfinity else NegInfinity)
            else Num (if 0 < x then y else - y)))"

text \<open>
  The operators \<open>*\<close> and \<open>/\<close>: an operand that is \<open>undefined\<close> converts to \<open>NaN\<close>;
  finite operands give the exact result rounded to a double.
\<close>

fun js_times :: "jsval \<Rightarrow> jsval \<Rightarrow> jsval" where
  "js_times (Num a) (Num b) = binary64 (a * b)"
| "js_times (Num a) PosInfinity =
     (if a = 0 then NaN else if 0 < a then PosInfinity else NegInfinity)"
| "js_times (Num a) NegInfinity =
     (if a = 0 then NaN else if 0 < a then NegInfinity else PosInfinity)"
| "js_times PosInfinity (Num b) =
     (if b = 0 then NaN else if 0 < b then PosInfinity else NegInfinity)"
| "js_times NegInfinity (Num b) =
     (if b = 0 then NaN else if 0 < b then NegInfinity else PosInfinity)"
| "js_times PosInfinity PosInfinity = PosInfinity"
| "js_times PosInfinity NegInfinity = NegInfinity"
| "js_times NegInfinity PosInfinity = NegInfinity"
| "js_times NegInfinity NegInfinity = PosInfinity"
| "js_times _ _ = NaN"

fun js_divide :: "jsval \<Rightarrow> jsval \<Rightarrow> jsval" where
  "js_divide (Num a) (Num b) =
     (if b = 0 then (if a = 0 then NaN else if 0 < a then PosInfinity else NegInfinity)
      else binary64 (a / b))"
| "js_divide (Num a) PosInfinity = Num 0"
| "js_divide (Num a) NegInfinity = Num 0"
| "js_divide PosInfinity (Num b) = (if 0 \<le> b then PosInfinity else NegInfinity)"
| "js_divide NegInfinity (Num b) = (if 0 \<le> b then NegInfinity else PosInfinity)"
| "js_divide _ _ = NaN"


section \<open>The hub as a device sees it\<close>

text \<open>
  Modelled from the spec: \<open>Consts.HubType\<close> is not in the sources. The rows of the voltage
  tables name \<open>UNKNOWN\<close>, \<open>DUPLO_TRAIN_BASE\<close>, \<open>REMOTE_CONTROL\<close> and \<open>TECHNIC_MEDIUM_HUB\<close>;
  the remaining hub models are the exported hub classes, and \<open>OtherHub n\<close> is any other
  number found in \<open>hub.type\<close>.
\<close>

datatype HubType =
    UNKNOWN
  | WEDO2_SMART_HUB
  | MOVE_HUB
  | HUB
  | REMOTE_CONTROL
  | DUPLO_TRAIN_BASE
  | TECHNIC_MEDIUM_HUB
  | OtherHub nat

record IDeviceInterface =
  hubType :: HubType
  autoParse :: bool

text \<open>
  Modelled from the spec: the getter \<open>Device.isWeDo2SmartHub\<close> is not in the sources. The
  spec has one hub type use the signed law and all other hub types the table law.
\<close>

definition isWeDo2SmartHub :: "IDeviceInterface \<Rightarrow> bool" where
  "isWeDo2SmartHub hub = (hubType hub = WEDO2_SMART_HUB)"


section \<open>DuploTrainBaseColorSensor\<close>

definition Mode_COLOR :: nat where "Mode_COLOR = 0"
definition Mode_REFLECTIVITY :: nat where "Mode_REFLECTIVITY = 2"
definition Mode_RGB :: nat where "Mode_RGB = 3"

definition ModeMap :: "(string \<times> nat) list" where
  "ModeMap = [(''color'', Mode_COLOR), (''reflect'', Mode_REFLECTIVITY), (''rgb'', Mode_RGB)]"

text \<open>
  \<open>mode\<close> is the device's \<open>_mode\<close>, \<open>None\<close> while it is still \<open>undefined\<close>. The three reads
  of the RGB branch happen in the source's order, and the first one out of range throws.
\<close>

definition DuploTrainBaseColorSensor_receive ::
  "IDeviceInterface \<Rightarrow> nat option \<Rightarrow> buffer \<Rightarrow> outcome" where
  "DuploTrainBaseColorSensor_receive hub mode message =
     (if autoParse hub then SuperReceive message
      else if mode = Some Mode_COLOR then
        (if js_le (buf_index message 4) 10
         then Emits [Notify ''color'' (Obj [(''color'', buf_index message 4)])]
         else Emits [])
      else if mode = Some Mode_REFLECTIVITY then
        Emits [Notify ''reflect'' (Obj [(''reflect'', buf_index message 4)])]
      else if mode = Some Mode_RGB then
        (case readUInt16LE message 4 of
           Inl e \<Rightarrow> Throws e
         | Inr r \<Rightarrow>
        (case readUInt16LE message 6 of
           Inl e \<Rightarrow> Throws e
         | Inr g \<Rightarrow>
        (case readUInt16LE message 8 of
           Inl e \<Rightarrow> Throws e
         | Inr b \<Rightarrow>
             Emits [Notify ''rgb''
               (Obj [(''red'', floor_div4 r), (''green'', floor_div4 g),
                     (''blue'', floor_div4 b)])])))
      else Emits [])"


section \<open>VoltageSensor\<close>

definition VoltageSensor_Mode_VOLTAGE :: nat where "VoltageSensor_Mode_VOLTAGE = 0"

definition VoltageSensor_ModeMap :: "(string \<times> nat) list" where
  "VoltageSensor_ModeMap = [(''voltage'', VoltageSensor_Mode_VOLTAGE)]"

text \<open>
  The two scaling tables; \<open>None\<close> is the \<open>undefined\<close> of a missing row. A row holds the
  double its literal denotes; the integers are doubles as they stand.
\<close>

fun MaxVoltageValue :: "HubType \<Rightarrow> jsval option" where
  "MaxVoltageValue UNKNOWN = Some (binary64 9.615)"
| "MaxVoltageValue DUPLO_TRAIN_BASE = Some (binary64 6.4)"
| "MaxVoltageValue REMOTE_CONTROL = Some (binary64 6.4)"
| "MaxVoltageValue _ = None"

fun MaxVoltageRaw :: "HubType \<Rightarrow> jsval option" where
  "MaxVoltageRaw UNKNOWN = Some (Num 3893)"
| "MaxVoltageRaw DUPLO_TRAIN_BASE = Some (Num 3047)"
| "MaxVoltageRaw REMOTE_CONTROL = Some (Num 3200)"
| "MaxVoltageRaw TECHNIC_MEDIUM_HUB = Some (Num 4095)"
| "MaxVoltageRaw _ = None"

text \<open>
  \<open>let x = table[this.hub.type]; if (x === undefined) { x = table[Consts.HubType.UNKNOWN]; }\<close>
\<close>

definition row_or_unknown :: "(HubType \<Rightarrow> jsval option) \<Rightarrow> HubType \<Rightarrow> jsval option" where
  "row_or_unknown table t = (case table t of None \<Rightarrow> table UNKNOWN | Some x \<Rightarrow> Some x)"

text \<open>The value of a variable that may still be \<open>undefined\<close>.\<close>

fun js_value :: "jsval option \<Rightarrow> jsval" where
  "js_value None = Undefined"
| "js_value (Some v) = v"

text \<open>
  \<open>raw * maxVoltageValue / maxVoltageRaw\<close>, evaluated from left to right: the product is
  rounded to a double, then the quotient is.
\<close>

definition scale_voltage :: "nat \<Rightarrow> jsval option \<Rightarrow> jsval option \<Rightarrow> jsval" where
  "scale_voltage raw maxVoltageValue maxVoltageRaw =
     js_divide (js_times (Num (of_nat raw)) (js_value maxVoltageValue))
       (js_value maxVoltageRaw)"

definition VoltageSensor_receive ::
  "IDeviceInterface \<Rightarrow> nat option \<Rightarrow> buffer \<Rightarrow> outcome" where
  "VoltageSensor_receive hub mode message =
     (if mode = Some VoltageSensor_Mode_VOLTAGE then
        (if isWeDo2SmartHub hub then
           (case readInt16LE message 2 of
              Inl e \<Rightarrow> Throws e
            | Inr v \<Rightarrow>
                Emits [EmitGlobal ''voltage'' (Val (js_divide (Num (of_int v)) (Num 40)))])
         else
           (let maxVoltageValue = row_or_unknown MaxVoltageValue (hubType hub);
                maxVoltageRaw = row_or_unknown MaxVoltageRaw (hubType hub)
            in case readUInt16LE message 4 of
                 Inl e \<Rightarrow> Throws e
               | Inr raw \<Rightarrow>
                   Emits [EmitGlobal ''voltage''
                     (Val (scale_voltage raw maxVoltageValue maxVoltageRaw))]))
      else Emits [])"


section \<open>RemoteControlButton\<close>

definition RemoteControlButton_Mode_BUTTON_EVENTS :: nat where
  "RemoteControlButton_Mode_BUTTON_EVENTS = 0"

definition RemoteControlButton_receive :: "nat option \<Rightarrow> buffer \<Rightarrow> outcome" where
  "RemoteControlButton_receive mode message =
     (if mode = Some RemoteControlButton_Mode_BUTTON_EVENTS
      then Emits [EmitGlobal ''remoteButton'' (Val (buf_index message 4))]
      else Emits [])"


section \<open>Objects keyed by numbers\<close>

text \<open>
  \<open>_attachedDevices\<close> is a plain object keyed by port id. Its own properties are kept as
  an association list in the order \<open>Object.values\<close> lists integer keys, ascending.
\<close>

fun obj_set :: "nat \<Rightarrow> 'a \<Rightarrow> (nat \<times> 'a) list \<Rightarrow> (nat \<times> 'a) list" where
  "obj_set k v [] = [(k, v)]"
| "obj_set k v ((k', v') # rest) =
     (if k < k' then (k, v) # (k', v') # rest
      else if k = k' then (k, v) # rest
      else (k', v') # obj_set k v rest)"

definition obj_delete :: "nat \<Rightarrow> (nat \<times> 'a) list \<Rightarrow> (nat \<times> 'a) list" where
  "obj_delete k entries = filter (\<lambda>entry. fst entry \<noteq> k) entries"

definition obj_values :: "(nat \<times> 'a) list \<Rightarrow> 'a list" where
  "obj_values entries = map snd entries"


section \<open>Hub and BaseHub: state\<close>

text \<open>
  A \<open>Device\<close> as the hub uses it: its port id and its type code. \<open>oid\<close> stands for the
  identity of the JavaScript object, so that two devices with equal fields stay apart.
\<close>

record Device =
  oid :: nat
  portId :: nat
  devType :: nat

text \<open>
  The two closures pushed onto \<open>_attachCallbacks\<close>: the one of \<open>waitForDeviceAtPort\<close>
  captures the port name, the one of \<open>waitForDeviceByType\<close> the type code; both capture
  the \<open>resolve\<close> of their promise, named here by a number.
\<close>

datatype waiter = AtPort nat string | ByType nat nat

fun promise :: "waiter \<Rightarrow> nat" where
  "promise (AtPort p portName) = p"
| "promise (ByType p deviceType) = p"

text \<open>
  What a hub method does besides changing the hub: events handed to \<open>emit\<close>, promises
  settled, and (for the order of the scan) each call of a pending callback.
\<close>

datatype effect =
    Emit string Device
  | Called waiter
  | Resolve nat Device
  | Reject nat js_error

record hub_state =
  attachedDevices :: "(nat \<times> Device) list"
  portMap :: "(string \<times> nat) list"
  attachCallbacks :: "waiter list"
  effects :: "effect list"

text \<open>The constructor: no device, no pending callback, the port map of the hub model.\<close>

definition new_hub :: "(string \<times> nat) list \<Rightarrow> hub_state" where
  "new_hub pm = \<lparr>attachedDevices = [], portMap = pm, attachCallbacks = [], effects = []\<rparr>"

definition emit :: "string \<Rightarrow> Device \<Rightarrow> hub_state \<Rightarrow> hub_state" where
  "emit name device s = s\<lparr>effects := effects s @ [Emit name device]\<rparr>"

fun emits_of :: "effect list \<Rightarrow> (string \<times> Device) list" where
  "emits_of [] = []"
| "emits_of (Emit name device # rest) = (name, device) # emits_of rest"
| "emits_of (_ # rest) = emits_of rest"

fun calls_of :: "effect list \<Rightarrow> waiter list" where
  "calls_of [] = []"
| "calls_of (Called w # rest) = w # calls_of rest"
| "calls_of (_ # rest) = calls_of rest"

fun settled_of :: "effect list \<Rightarrow> effect list" where
  "settled_of [] = []"
| "settled_of (Resolve p device # rest) = Resolve p device # settled_of rest"
| "settled_of (Reject p e # rest) = Reject p e # settled_of rest"
| "settled_of (_ # rest) = settled_of rest"


section \<open>Queries\<close>

text \<open>
  The port map is written as an object literal, so \<open>_portMap[portName]\<close> finds the own
  key \<open>portName\<close> or else a property inherited from \<open>Object.prototype\<close>, which is a
  function or an object; only a name found in neither place reads as \<open>undefined\<close>.
\<close>

definition Object_prototype :: "string list" where
  "Object_prototype =
     [''constructor'', ''__defineGetter__'', ''__defineSetter__'', ''hasOwnProperty'',
      ''__lookupGetter__'', ''__lookupSetter__'', ''isPrototypeOf'',
      ''propertyIsEnumerable'', ''toString'', ''valueOf'', ''__proto__'',
      ''toLocaleString'']"

datatype property = Number nat | Inherited | NoProperty

definition portMap_get :: "(string \<times> nat) list \<Rightarrow> string \<Rightarrow> property" where
  "portMap_get pm name =
     (case map_of pm name of
        Some pid \<Rightarrow> Number pid
      | None \<Rightarrow> if name \<in> set Object_prototype then Inherited else NoProperty)"

text \<open>
  \<open>BaseHub\<close> tests \<open>portId !== undefined\<close>. An inherited function or object passes the
  test and is then used as a key of \<open>_attachedDevices\<close>, where it finds nothing.
\<close>

definition BaseHub_getDeviceAtPort :: "hub_state \<Rightarrow> string \<Rightarrow> js_error + Device option" where
  "BaseHub_getDeviceAtPort s portName =
     (case portMap_get (portMap s) portName of
        Number pid \<Rightarrow> Inr (map_of (attachedDevices s) pid)
      | Inherited \<Rightarrow> Inr None
      | NoProperty \<Rightarrow> Inl (PortError portName))"

text \<open>
  \<open>Hub\<close> tests \<open>if (portId)\<close>: the number \<open>0\<close> is as falsy as \<open>undefined\<close>, an inherited
  function or object is truthy.
\<close>

definition Hub_getDeviceAtPort :: "hub_state \<Rightarrow> string \<Rightarrow> js_error + Device option" where
  "Hub_getDeviceAtPort s portName =
     (case portMap_get (portMap s) portName of
        Number pid \<Rightarrow>
          (if pid \<noteq> 0 then Inr (map_of (attachedDevices s) pid)
           else Inl (PortError portName))
      | Inherited \<Rightarrow> Inr None
      | NoProperty \<Rightarrow> Inl (PortError portName))"

definition getDevices :: "hub_state \<Rightarrow> Device list" where
  "getDevices s = obj_values (attachedDevices s)"

definition getDevicesByType :: "hub_state \<Rightarrow> nat \<Rightarrow> Device list" where
  "getDevicesByType s deviceType = filter (\<lambda>device. devType device = deviceType) (getDevices s)"

fun getPortNameForPortId :: "(string \<times> nat) list \<Rightarrow> nat \<Rightarrow> string option" where
  "getPortNameForPortId [] pid = None"
| "getPortNameForPortId ((port, pid') # rest) pid =
     (if pid' = pid then Some port else getPortNameForPortId rest pid)"

text \<open>
  Modelled from the spec: the getter \<open>Device.portName\<close> is not in the sources. The spec
  maps a port id to its name through the static table of the hub model, which is what
  \<open>getPortNameForPortId\<close> reads.
\<close>

definition portName :: "(string \<times> nat) list \<Rightarrow> Device \<Rightarrow> string option" where
  "portName pm device = getPortNameForPortId pm (portId device)"


section \<open>Waiting for a device\<close>

text \<open>The test each pending callback makes on the attached device.\<close>

fun satisfied :: "(string \<times> nat) list \<Rightarrow> Device \<Rightarrow> waiter \<Rightarrow> bool" where
  "satisfied pm device (AtPort p name) = (portName pm device = Some name)"
| "satisfied pm device (ByType p deviceType) = (devType device = deviceType)"

text \<open>
  Calling a callback: when its test holds it resolves its promise. In \<open>BaseHub\<close> it then
  returns \<open>true\<close>, otherwise \<open>false\<close>; in \<open>Hub\<close> its result is not looked at.
\<close>

definition call_callback :: "waiter \<Rightarrow> Device \<Rightarrow> hub_state \<Rightarrow> bool \<times> hub_state" where
  "call_callback w device s =
     (if satisfied (portMap s) device w
      then (True, s\<lparr>effects := effects s @ [Called w, Resolve (promise w) device]\<rparr>)
      else (False, s\<lparr>effects := effects s @ [Called w]\<rparr>))"

text \<open>The effects of one call of a pending callback, as a list.\<close>

definition call_effects :: "(string \<times> nat) list \<Rightarrow> Device \<Rightarrow> waiter \<Rightarrow> effect list" where
  "call_effects pm device w =
     (if satisfied pm device w then [Called w, Resolve (promise w) device] else [Called w])"

text \<open>
  \<open>p\<close> names the promise the call returns. An exception inside the executor of a promise
  rejects that promise.
\<close>

definition BaseHub_waitForDeviceAtPort :: "nat \<Rightarrow> string \<Rightarrow> hub_state \<Rightarrow> hub_state" where
  "BaseHub_waitForDeviceAtPort p name s =
     (case BaseHub_getDeviceAtPort s name of
        Inl e \<Rightarrow> s\<lparr>effects := effects s @ [Reject p e]\<rparr>
      | Inr (Some existingDevice) \<Rightarrow> s\<lparr>effects := effects s @ [Resolve p existingDevice]\<rparr>
      | Inr None \<Rightarrow> s\<lparr>attachCallbacks := attachCallbacks s @ [AtPort p name]\<rparr>)"

definition Hub_waitForDeviceAtPort :: "nat \<Rightarrow> string \<Rightarrow> hub_state \<Rightarrow> hub_state" where
  "Hub_waitForDeviceAtPort p name s =
     (case Hub_getDeviceAtPort s name of
        Inl e \<Rightarrow> s\<lparr>effects := effects s @ [Reject p e]\<rparr>
      | Inr (Some existingDevice) \<Rightarrow> s\<lparr>effects := effects s @ [Resolve p existingDevice]\<rparr>
      | Inr None \<Rightarrow> s\<lparr>attachCallbacks := attachCallbacks s @ [AtPort p name]\<rparr>)"

definition waitForDeviceByType :: "nat \<Rightarrow> nat \<Rightarrow> hub_state \<Rightarrow> hub_state" where
  "waitForDeviceByType p deviceType s =
     (case getDevicesByType s deviceType of
        existingDevice # _ \<Rightarrow> s\<lparr>effects := effects s @ [Resolve p existingDevice]\<rparr>
      | [] \<Rightarrow> s\<lparr>attachCallbacks := attachCallbacks s @ [ByType p deviceType]\<rparr>)"


section \<open>Attach and detach\<close>

text \<open>\<open>callbacks.splice(i, 1)\<close>\<close>

definition splice1 :: "nat \<Rightarrow> 'a list \<Rightarrow> 'a list" where
  "splice1 i xs = take i xs @ drop (Suc i) xs"

text \<open>
  The scan of \<open>BaseHub._attachDevice\<close>: \<open>let i = length; while (i--) { ... }\<close>. The first
  argument is the value of \<open>i\<close> the loop test sees; the body runs with \<open>i - 1\<close>. Calling a
  missing entry of the array would be a \<open>TypeError\<close>.
\<close>

fun attach_scan :: "nat \<Rightarrow> Device \<Rightarrow> hub_state \<Rightarrow> js_error + hub_state" where
  "attach_scan 0 device s = Inr s"
| "attach_scan (Suc i) device s =
     (if i < length (attachCallbacks s) then
        (case call_callback (attachCallbacks s ! i) device s of
           (True, s') \<Rightarrow>
             attach_scan i device (s'\<lparr>attachCallbacks := splice1 i (attachCallbacks s')\<rparr>)
         | (False, s') \<Rightarrow> attach_scan i device s')
      else Inl TypeError)"

definition BaseHub_attachDevice :: "Device \<Rightarrow> hub_state \<Rightarrow> js_error + hub_state" where
  "BaseHub_attachDevice device s =
     (let s1 = s\<lparr>attachedDevices := obj_set (portId device) device (attachedDevices s)\<rparr>;
          s2 = emit ''attach'' device s1
      in attach_scan (length (attachCallbacks s2)) device s2)"

text \<open>\<open>Hub._attachDevice\<close>: \<open>this._attachCallbacks.forEach((callback) => { callback(device); })\<close>\<close>

fun forEach_callback :: "waiter list \<Rightarrow> Device \<Rightarrow> hub_state \<Rightarrow> hub_state" where
  "forEach_callback [] device s = s"
| "forEach_callback (callback # rest) device s =
     forEach_callback rest device (snd (call_callback callback device s))"

definition Hub_attachDevice :: "Device \<Rightarrow> hub_state \<Rightarrow> hub_state" where
  "Hub_attachDevice device s =
     (let s1 = s\<lparr>attachedDevices := obj_set (portId device) device (attachedDevices s)\<rparr>;
          s2 = emit ''attach'' device s1
      in forEach_callback (attachCallbacks s2) device s2)"

definition BaseHub_detachDevice :: "Device \<Rightarrow> hub_state \<Rightarrow> hub_state" where
  "BaseHub_detachDevice device s =
     emit ''detach'' device
       (s\<lparr>attachedDevices := obj_delete (portId device) (attachedDevices s)\<rparr>)"

definition Hub_detachDevice :: "Device \<Rightarrow> hub_state \<Rightarrow> hub_state" where
  "Hub_detachDevice device s =
     emit ''detach'' device
       (s\<lparr>attachedDevices := obj_delete (portId device) (attachedDevices s)\<rparr>)"


section \<open>Creating a device from its type code\<close>

text \<open>
  The names of \<open>Consts.DeviceType\<close> that the two registries use. Their numbers are not in
  the sources: every definition below takes them as the parameter \<open>code\<close>.
\<close>

datatype DeviceType =
    LIGHT
  | TRAIN_MOTOR
  | SIMPLE_MEDIUM_LINEAR_MOTOR
  | MOVE_HUB_MEDIUM_LINEAR_MOTOR
  | MOTION_SENSOR
  | TILT_SENSOR
  | MOVE_HUB_TILT_SENSOR
  | TECHNIC_MEDIUM_HUB_TILT_SENSOR
  | TECHNIC_MEDIUM_HUB_GYRO_SENSOR
  | TECHNIC_MEDIUM_HUB_ACCELEROMETER
  | MEDIUM_LINEAR_MOTOR
  | TECHNIC_LARGE_LINEAR_MOTOR
  | TECHNIC_XLARGE_LINEAR_MOTOR
  | COLOR_DISTANCE_SENSOR
  | VOLTAGE_SENSOR
  | CURRENT_SENSOR
  | REMOTE_CONTROL_BUTTON
  | HUB_LED
  | DUPLO_TRAIN_BASE_COLOR_SENSOR
  | DUPLO_TRAIN_BASE_MOTOR
  | DUPLO_TRAIN_BASE_SPEAKER
  | DUPLO_TRAIN_BASE_SPEEDOMETER

datatype DeviceClass =
    Light
  | TrainMotor
  | SimpleMediumLinearMotor
  | MoveHubMediumLinearMotor
  | MotionSensor
  | TiltSensor
  | MoveHubTiltSensor
  | TechnicMediumHubTiltSensor
  | TechnicMediumHubGyroSensor
  | TechnicMediumHubAccelerometerSensor
  | MediumLinearMotor
  | TechnicLargeLinearMotor
  | TechnicXLargeLinearMotor
  | ColorDistanceSensor
  | VoltageSensor
  | CurrentSensor
  | RemoteControlButton
  | HubLED
  | DuploTrainBaseColorSensor
  | DuploTrainBaseMotor
  | DuploTrainBaseSpeaker
  | DuploTrainBaseSpeedometer

text \<open>
  The object \<open>_createDevice\<close> returns, named by the \<open>new\<close> expression that builds it:
  \<open>New c portId\<close> is \<open>new c(this, portId)\<close> for a decoder class \<open>c\<close>, and
  \<open>NewDevice portId modeMap deviceType\<close> is \<open>new Device(this, portId, modeMap, deviceType)\<close>
  with \<open>None\<close> for a mode map that is \<open>undefined\<close>. The constructors themselves are not in
  the sources; the spec has them store their arguments and do no I/O.
\<close>

datatype created =
    New DeviceClass nat
  | NewDevice nat "(string \<times> nat) list option" nat

text \<open>The entries of \<open>deviceConstructors\<close> in \<open>BaseHub._createDevice\<close>, in source order.\<close>

definition deviceConstructors :: "(DeviceType \<times> DeviceClass) list" where
  "deviceConstructors =
     [(LIGHT, Light),
      (TRAIN_MOTOR, TrainMotor),
      (SIMPLE_MEDIUM_LINEAR_MOTOR, SimpleMediumLinearMotor),
      (MOVE_HUB_MEDIUM_LINEAR_MOTOR, MoveHubMediumLinearMotor),
      (MOTION_SENSOR, MotionSensor),
      (TILT_SENSOR, TiltSensor),
      (MOVE_HUB_TILT_SENSOR, MoveHubTiltSensor),
      (TECHNIC_MEDIUM_HUB_TILT_SENSOR, TechnicMediumHubTiltSensor),
      (TECHNIC_MEDIUM_HUB_GYRO_SENSOR, TechnicMediumHubGyroSensor),
      (TECHNIC_MEDIUM_HUB_ACCELEROMETER, TechnicMediumHubAccelerometerSensor),
      (MEDIUM_LINEAR_MOTOR, MediumLinearMotor),
      (TECHNIC_LARGE_LINEAR_MOTOR, TechnicLargeLinearMotor),
      (TECHNIC_XLARGE_LINEAR_MOTOR, TechnicXLargeLinearMotor),
      (COLOR_DISTANCE_SENSOR, ColorDistanceSensor),
      (VOLTAGE_SENSOR, VoltageSensor),
      (CURRENT_SENSOR, CurrentSensor),
      (REMOTE_CONTROL_BUTTON, RemoteControlButton),
      (HUB_LED, HubLED),
      (DUPLO_TRAIN_BASE_COLOR_SENSOR, DuploTrainBaseColorSensor),
      (DUPLO_TRAIN_BASE_MOTOR, DuploTrainBaseMotor),
      (DUPLO_TRAIN_BASE_SPEAKER, DuploTrainBaseSpeaker),
      (DUPLO_TRAIN_BASE_SPEEDOMETER, DuploTrainBaseSpeedometer)]"

text \<open>The \<open>case\<close> labels of the \<open>switch\<close> in \<open>Hub._createDevice\<close>, in source order.\<close>

definition Hub_cases :: "(DeviceType \<times> DeviceClass) list" where
  "Hub_cases =
     [(LIGHT, Light),
      (TRAIN_MOTOR, TrainMotor),
      (SIMPLE_MEDIUM_LINEAR_MOTOR, SimpleMediumLinearMotor),
      (MOVE_HUB_MEDIUM_LINEAR_MOTOR, MoveHubMediumLinearMotor),
      (MOTION_SENSOR, MotionSensor),
      (TILT_SENSOR, TiltSensor),
      (MEDIUM_LINEAR_MOTOR, MediumLinearMotor),
      (TECHNIC_LARGE_LINEAR_MOTOR, TechnicLargeLinearMotor),
      (TECHNIC_XLARGE_LINEAR_MOTOR, TechnicXLargeLinearMotor),
      (COLOR_DISTANCE_SENSOR, ColorDistanceSensor)]"

definition keyed :: "(DeviceType \<Rightarrow> nat) \<Rightarrow> (DeviceType \<times> 'a) list \<Rightarrow> (nat \<times> 'a) list" where
  "keyed code entries = map (\<lambda>entry. (code (fst entry), snd entry)) entries"

text \<open>
  Reading a key of an object literal: of two entries written with the same key the later
  one stays. A \<open>switch\<close> takes the first label that is equal.
\<close>

definition literal_get :: "(nat \<times> 'a) list \<Rightarrow> nat \<Rightarrow> 'a option" where
  "literal_get entries k = map_of (rev entries) k"

definition switch_get :: "(nat \<times> 'a) list \<Rightarrow> nat \<Rightarrow> 'a option" where
  "switch_get labels k = map_of labels k"

definition BaseHub_createDevice :: "(DeviceType \<Rightarrow> nat) \<Rightarrow> nat \<Rightarrow> nat \<Rightarrow> created" where
  "BaseHub_createDevice code deviceType pid =
     (case literal_get (keyed code deviceConstructors) deviceType of
        Some constructor \<Rightarrow> New constructor pid
      | None \<Rightarrow> NewDevice pid None deviceType)"

definition Hub_createDevice :: "(DeviceType \<Rightarrow> nat) \<Rightarrow> nat \<Rightarrow> nat \<Rightarrow> created" where
  "Hub_createDevice code deviceType pid =
     (case switch_get (keyed code Hub_cases) deviceType of
        Some constructor \<Rightarrow> New constructor pid
      | None \<Rightarrow> NewDevice pid None deviceType)"

text \<open>
  A numbering for concrete runs: the position of a name in \<open>deviceConstructors\<close>. Any
  numbering without repetitions would do.
\<close>

definition sample_code :: "DeviceType \<Rightarrow> nat" where
  "sample_code name = length (takeWhile (\<lambda>entry. fst entry \<noteq> name) deviceConstructors)"


section \<open>Runs of a hub\<close>

text \<open>
  The calls that change a \<open>BaseHub\<close>: the transport handler attaches and detaches devices,
  the application waits for them. A run stops at the first call that throws.
\<close>

datatype hub_call =
    Attach Device
  | Detach Device
  | WaitForDeviceAtPort nat string
  | WaitForDeviceByType nat nat

fun BaseHub_call :: "hub_call \<Rightarrow> hub_state \<Rightarrow> js_error + hub_state" where
  "BaseHub_call (Attach device) s = BaseHub_attachDevice device s"
| "BaseHub_call (Detach device) s = Inr (BaseHub_detachDevice device s)"
| "BaseHub_call (WaitForDeviceAtPort p name) s = Inr (BaseHub_waitForDeviceAtPort p name s)"
| "BaseHub_call (WaitForDeviceByType p deviceType) s = Inr (waitForDeviceByType p deviceType s)"

fun BaseHub_run :: "hub_call list \<Rightarrow> hub_state \<Rightarrow> js_error + hub_state" where
  "BaseHub_run [] s = Inr s"
| "BaseHub_run (c # rest) s =
     (case BaseHub_call c s of Inl e \<Rightarrow> Inl e | Inr s' \<Rightarrow> BaseHub_run rest s')"

fun attaches_at :: "nat \<Rightarrow> hub_call \<Rightarrow> bool" where
  "attaches_at pid (Attach device) = (portId device = pid)"
| "attaches_at pid _ = False"

section \<open>Facts about buffers\<close>

lemma floor_div4_eq: "floor_div4 n = Num (of_nat (n div 4))"
  unfolding floor_div4_def using floor_divide_of_nat_eq [of n 4, where ?'a = rat]
  by simp

lemma u16_cat: "unat (word_cat (hi :: 8 word) (lo :: 8 word) :: 16 word) = unat lo + 256 * unat hi"
proof -
  have lo: "unat lo < 256" and hi: "unat hi < 256"
    using unsigned_less [of lo, where ?'a = nat] unsigned_less [of hi, where ?'a = nat]
    by simp_all
  have a: "unat (ucast lo :: 16 word) = unat lo"
    using lo by (simp add: unsigned_ucast_eq take_bit_eq_mod)
  have b: "unat (push_bit 8 (ucast hi :: 16 word)) = 256 * unat hi"
  proof -
    have "unat (push_bit 8 (ucast hi :: 16 word))
            = take_bit 16 (push_bit 8 (take_bit 16 (unat hi)))"
      by (simp only: unsigned_push_bit_eq unsigned_ucast_eq) simp
    also have "\<dots> = 256 * unat hi"
      using hi by (simp add: take_bit_eq_mod push_bit_eq_mult)
    finally show ?thesis .
  qed
  have "unat (push_bit 8 (ucast hi) + ucast lo :: 16 word) = (256 * unat hi + unat lo) mod 65536"
    by (simp add: unat_word_ariths a b)
  also have "\<dots> = unat lo + 256 * unat hi"
    using lo hi by simp
  finally show ?thesis
    by (simp add: word_cat_eq)
qed

text \<open>Inside the buffer \<open>readUInt16LE\<close> returns the little-endian 16-bit number.\<close>

lemma readUInt16LE_inside:
  "offset + 2 \<le> length message \<Longrightarrow> readUInt16LE message offset = Inr (u16_le message offset)"
  by (simp add: readUInt16LE_def u16_le_def u16_cat)

lemma readUInt16LE_outside:
  "length message < offset + 2 \<Longrightarrow> readUInt16LE message offset = Inl RangeError"
  by (simp add: readUInt16LE_def)

lemma readUInt16LE_error: "readUInt16LE message offset = Inl e \<Longrightarrow> e = RangeError"
  by (simp add: readUInt16LE_def split: if_splits)

lemma readInt16LE_outside:
  "length message < offset + 2 \<Longrightarrow> readInt16LE message offset = Inl RangeError"
  by (simp add: readInt16LE_def readUInt16LE_outside)

lemma readInt16LE_inside:
  "offset + 2 \<le> length message \<Longrightarrow> \<exists>v. readInt16LE message offset = Inr v"
  by (simp add: readInt16LE_def readUInt16LE_inside)

lemma u16_le_bound: "u16_le message offset < 65536"
  unfolding u16_le_def using unsigned_less [of "word_cat (message ! (offset + 1)) (message ! offset) :: 16 word", where ?'a = nat]
  by simp

lemmas color_modes = Mode_COLOR_def Mode_REFLECTIVITY_def Mode_RGB_def


section \<open>Facts about double arithmetic\<close>

text \<open>
  \<open>bit_length\<close> counts binary digits, so \<open>ilog2\<close> is the exponent of the leading
  digit.
\<close>

lemma bit_length_pos: "0 < n \<Longrightarrow> 0 < bit_length n"
  by (subst bit_length.simps) simp

lemma bit_length_bounds: "0 < n \<Longrightarrow> 2 ^ (bit_length n - 1) \<le> n \<and> n < 2 ^ bit_length n"
proof (induction n rule: bit_length.induct)
  case (1 n)
  show ?case
  proof (cases "n div 2 = 0")
    case True
    with "1.prems" have "n = 1" by (simp add: div_eq_0_iff)
    then show ?thesis
      by (simp add: bit_length.simps [of "Suc 0"] bit_length.simps [of 0])
  next
    case False
    then have pos: "0 < n div 2" by simp
    let ?k = "bit_length (n div 2)"
    from "1.IH" [OF _ pos] "1.prems"
    have ih: "2 ^ (?k - 1) \<le> n div 2" "n div 2 < 2 ^ ?k" by simp_all
    have k: "0 < ?k"
      using pos by (rule bit_length_pos)
    have bl: "bit_length n = Suc ?k"
      using "1.prems" by (simp add: bit_length.simps [of n])
    have two: "(2::nat) ^ ?k = 2 * 2 ^ (?k - 1)"
      using k by (cases ?k) simp_all
    have "(2::nat) * 2 ^ (?k - 1) \<le> 2 * (n div 2)"
      using ih(1) by simp
    also have "\<dots> \<le> n" by simp
    finally have lo: "(2::nat) ^ ?k \<le> n"
      by (simp only: two)
    have hi: "n < 2 ^ Suc ?k"
      using ih(2) by simp
    show ?thesis
      using lo hi bl by simp
  qed
qed

lemma pow2_pos: "0 < pow2 e"
  by (simp add: pow2_def)

lemma pow2_nat: "pow2 (int n) = 2 ^ n"
  by (simp add: pow2_def)

lemma pow2_neg_nat: "pow2 (- int n) = 1 / 2 ^ n"
  by (cases "n = 0") (simp_all add: pow2_def)

lemma pow2_Suc: "pow2 (e + 1) = 2 * pow2 e"
proof (cases "0 \<le> e")
  case True
  then show ?thesis by (simp add: pow2_def nat_add_distrib)
next
  case False
  then obtain n where e: "e = - int (Suc n)"
    by (metis (no_types) not_le zero_less_imp_eq_int neg_0_less_iff_less add.inverse_inverse Suc_pred' of_nat_0_less_iff)
  have "e + 1 = - int n" using e by simp
  then have "pow2 (e + 1) = 1 / 2 ^ n"
    by (simp only: pow2_neg_nat)
  moreover have "pow2 e = 1 / 2 ^ Suc n"
    by (simp only: e pow2_neg_nat)
  ultimately show ?thesis by simp
qed

lemma ilog2_bounds:
  assumes "0 < x"
  shows "pow2 (ilog2 x) \<le> x \<and> x < pow2 (ilog2 x + 1)"
proof (cases "1 \<le> x")
  case True
  let ?n = "nat \<lfloor>x\<rfloor>"
  have n: "0 < ?n" using True by simp
  have nx: "of_nat ?n \<le> x" "x < of_nat ?n + 1"
    using True by (simp_all add: of_nat_nat) linarith+
  note b = bit_length_bounds [OF n]
  have bl: "0 < bit_length ?n"
    using n by (rule bit_length_pos)
  then have e: "ilog2 x = int (bit_length ?n - 1)"
    using True by (simp add: ilog2_def of_nat_diff)
  have "pow2 (ilog2 x) = 2 ^ (bit_length ?n - 1)"
    by (simp only: e pow2_nat)
  also have "\<dots> \<le> of_nat ?n"
    using b by (metis of_nat_le_iff of_nat_numeral of_nat_power)
  finally have lo: "pow2 (ilog2 x) \<le> x" using nx(1) by simp
  have "ilog2 x + 1 = int (bit_length ?n)"
    using bl e by simp
  then have "pow2 (ilog2 x + 1) = 2 ^ bit_length ?n"
    by (simp only: pow2_nat)
  moreover have "of_nat ?n + 1 \<le> (2::rat) ^ bit_length ?n"
  proof -
    have "Suc ?n \<le> 2 ^ bit_length ?n" using b Suc_leI by blast
    then have "(of_nat (Suc ?n) :: rat) \<le> of_nat (2 ^ bit_length ?n)"
      by (simp only: of_nat_le_iff)
    then show ?thesis by simp
  qed
  ultimately have "x < pow2 (ilog2 x + 1)" using nx(2) by simp
  with lo show ?thesis by simp
next
  case False
  let ?y = "1 / x"
  let ?n = "nat \<lceil>?y\<rceil>"
  have y: "1 < ?y" using False assms by simp
  then have c: "2 \<le> \<lceil>?y\<rceil>" by linarith
  then have n: "0 < ?n - 1" by simp
  have ny: "?y \<le> of_nat ?n" "of_nat (?n - 1) < ?y"
  proof -
    have "of_int \<lceil>?y\<rceil> = (of_nat ?n :: rat)" using c by simp
    then show "?y \<le> of_nat ?n" by (metis le_of_int_ceiling)
    have "int (?n - 1) = \<lceil>?y\<rceil> - 1"
      using c by arith
    then have "(of_nat (?n - 1) :: rat) = of_int (\<lceil>?y\<rceil> - 1)"
      by (metis of_int_of_nat_eq)
    also have "\<dots> < ?y" by linarith
    finally show "of_nat (?n - 1) < ?y" .
  qed
  let ?k = "bit_length (?n - 1)"
  note b = bit_length_bounds [OF n]
  have k: "0 < ?k" using n by (rule bit_length_pos)
  have e: "ilog2 x = - int ?k"
    using False by (simp add: ilog2_def)
  have "Suc (?n - 1) \<le> 2 ^ ?k" using b Suc_leI by blast
  moreover have "Suc (?n - 1) = ?n" using n by arith
  ultimately have "?n \<le> 2 ^ ?k" by (simp only:)
  then have "(of_nat ?n :: rat) \<le> of_nat (2 ^ ?k)" by (simp only: of_nat_le_iff)
  then have "(of_nat ?n :: rat) \<le> 2 ^ ?k" by (simp only: of_nat_power of_nat_numeral)
  with ny(1) have "?y \<le> 2 ^ ?k" by (rule order_trans)
  then have "1 \<le> 2 ^ ?k * x"
    using assms by (simp only: pos_divide_le_eq)
  then have lo: "1 / 2 ^ ?k \<le> x"
    by (simp only: pos_divide_le_eq zero_less_power zero_less_numeral mult.commute)
  have "(of_nat (2 ^ (?k - 1)) :: rat) \<le> of_nat (?n - 1)"
    using b by (simp only: of_nat_le_iff)
  then have "(2::rat) ^ (?k - 1) \<le> of_nat (?n - 1)"
    by (simp only: of_nat_power of_nat_numeral)
  with ny(2) have "2 ^ (?k - 1) < ?y" by (rule le_less_trans [rotated])
  then have "2 ^ (?k - 1) * x < 1"
    using assms by (simp only: pos_less_divide_eq)
  then have hi: "x < 1 / 2 ^ (?k - 1)"
    by (simp only: pos_less_divide_eq zero_less_power zero_less_numeral mult.commute)
  have "pow2 (ilog2 x) = 1 / 2 ^ ?k"
    by (simp only: e pow2_neg_nat)
  moreover have "pow2 (ilog2 x + 1) = 1 / 2 ^ (?k - 1)"
  proof -
    have "ilog2 x + 1 = - int (?k - 1)" using k e by simp
    then show ?thesis by (simp only: pow2_neg_nat)
  qed
  ultimately show ?thesis using lo hi by simp
qed

lemma round_half_even_nearest: "\<bar>of_int (round_half_even x) - x\<bar> \<le> 1 / 2"
proof -
  have "of_int \<lfloor>x\<rfloor> \<le> x" "x < of_int \<lfloor>x\<rfloor> + 1" by linarith+
  then show ?thesis
    by (auto simp: round_half_even_def Let_def abs_le_iff)
qed


lemma pow2_powi: "pow2 e = 2 powi e"
  by (simp add: pow2_def power_int_def power_one_over inverse_eq_divide)

lemma pow2_add: "pow2 (a + b) = pow2 a * pow2 b"
  by (simp add: pow2_powi power_int_add)

lemma pow2_mono: "a \<le> b \<Longrightarrow> pow2 a \<le> pow2 b"
  by (simp add: pow2_powi power_int_increasing)

lemma pow2_52: "pow2 e = 2 ^ 52 * pow2 (e - 52)"
  using pow2_add [of 52 "e - 52"] by (simp add: pow2_def)

lemma scaled_normal:
  assumes "pow2 e \<le> a" and "a < pow2 (e + 1)"
  shows "2 ^ 52 \<le> a / pow2 (e - 52)" and "a / pow2 (e - 52) < 2 ^ 53"
proof -
  have p: "0 < pow2 (e - 52)" by (rule pow2_pos)
  have "2 ^ 52 * pow2 (e - 52) \<le> a"
    using assms(1) by (simp only: pow2_52 [symmetric])
  then show "2 ^ 52 \<le> a / pow2 (e - 52)"
    using p by (simp only: pos_le_divide_eq)
  have "pow2 (e + 1) = 2 ^ 53 * pow2 (e - 52)"
    using pow2_52 [of e] by (simp add: pow2_Suc)
  then have "a < 2 ^ 53 * pow2 (e - 52)"
    using assms(2) by simp
  then show "a / pow2 (e - 52) < 2 ^ 53"
    using p by (simp only: pos_divide_less_eq)
qed

lemma scaled_subnormal:
  assumes "a < pow2 (- 1022)"
  shows "a / pow2 (- 1074) < 2 ^ 52"
proof -
  have "pow2 (- 1022) = 2 ^ 52 * pow2 (- 1074)"
    using pow2_52 [of "- 1022"] by simp
  then have "a < 2 ^ 52 * pow2 (- 1074)"
    using assms by simp
  then show ?thesis
    using pow2_pos [of "- 1074"] by (simp only: pos_divide_less_eq)
qed

lemma round_half_even_between:
  assumes "of_int a \<le> x" and "x \<le> of_int b"
  shows "a \<le> round_half_even x" and "round_half_even x \<le> b"
proof -
  have f: "a \<le> \<lfloor>x\<rfloor>" "\<lfloor>x\<rfloor> \<le> b"
    using assms by (simp_all add: le_floor_iff floor_le_iff)
  show "a \<le> round_half_even x"
    using f(1) by (simp add: round_half_even_def Let_def)
  have "x - of_int \<lfloor>x\<rfloor> \<noteq> 0 \<Longrightarrow> \<lfloor>x\<rfloor> + 1 \<le> b"
  proof -
    assume "x - of_int \<lfloor>x\<rfloor> \<noteq> 0"
    then have "of_int \<lfloor>x\<rfloor> < x" using of_int_floor_le [of x] by linarith
    with assms(2) have "(of_int \<lfloor>x\<rfloor> :: rat) < of_int b" by simp
    then show ?thesis by simp
  qed
  then show "round_half_even x \<le> b"
    using f(2) by (auto simp: round_half_even_def Let_def)
qed


text \<open>The pieces of \<open>binary64\<close> for a nonzero argument.\<close>

lemma binary64_digits:
  assumes "x \<noteq> 0"
  defines "q \<equiv> max (ilog2 \<bar>x\<bar>) (- 1022) - 52"
  defines "m \<equiv> round_half_even (\<bar>x\<bar> / pow2 q)"
  shows "0 \<le> m" and "m \<le> 2 ^ 53" and "- 1074 \<le> q"
    and "\<bar>of_int m * pow2 q - \<bar>x\<bar>\<bar> \<le> pow2 q / 2"
    and "- 1022 \<le> ilog2 \<bar>x\<bar> \<Longrightarrow> 2 ^ 52 \<le> m"
proof -
  have pos: "0 < \<bar>x\<bar>" using assms(1) by simp
  note e = ilog2_bounds [OF pos]
  have p: "0 < pow2 q" by (rule pow2_pos)
  show q: "- 1074 \<le> q" by (simp add: q_def)
  have s0: "of_int 0 \<le> \<bar>x\<bar> / pow2 q"
    using pos p by simp
  have s53: "\<bar>x\<bar> / pow2 q \<le> of_int (2 ^ 53)"
    and s52: "- 1022 \<le> ilog2 \<bar>x\<bar> \<Longrightarrow> of_int (2 ^ 52) \<le> \<bar>x\<bar> / pow2 q"
  proof -
    show "\<bar>x\<bar> / pow2 q \<le> of_int (2 ^ 53)"
    proof (cases "- 1022 \<le> ilog2 \<bar>x\<bar>")
      case True
      then have "q = ilog2 \<bar>x\<bar> - 52" by (simp add: q_def)
      then show ?thesis
        using scaled_normal(2) [of "ilog2 \<bar>x\<bar>" "\<bar>x\<bar>"] e by simp
    next
      case False
      then have q': "q = - 1074" by (simp add: q_def)
      have "pow2 (ilog2 \<bar>x\<bar> + 1) \<le> pow2 (- 1022)"
        using False by (intro pow2_mono) simp
      then have "\<bar>x\<bar> < pow2 (- 1022)" using e by simp
      then have "\<bar>x\<bar> / pow2 (- 1074) < 2 ^ 52" by (rule scaled_subnormal)
      then show ?thesis by (simp add: q')
    qed
    assume n: "- 1022 \<le> ilog2 \<bar>x\<bar>"
    then have "q = ilog2 \<bar>x\<bar> - 52" by (simp add: q_def)
    then show "of_int (2 ^ 52) \<le> \<bar>x\<bar> / pow2 q"
      using scaled_normal(1) [of "ilog2 \<bar>x\<bar>" "\<bar>x\<bar>"] e by simp
  qed
  show "0 \<le> m"
    unfolding m_def using s0 s53 by (rule round_half_even_between(1))
  show "m \<le> 2 ^ 53"
    unfolding m_def using s0 s53 by (rule round_half_even_between(2))
  show "2 ^ 52 \<le> m" if "- 1022 \<le> ilog2 \<bar>x\<bar>"
    unfolding m_def using s52 [OF that] s53 by (rule round_half_even_between(1))
  have "of_int m * pow2 q - \<bar>x\<bar> = (of_int m - \<bar>x\<bar> / pow2 q) * pow2 q"
    using p by (simp add: left_diff_distrib)
  then have "\<bar>of_int m * pow2 q - \<bar>x\<bar>\<bar> = \<bar>of_int m - \<bar>x\<bar> / pow2 q\<bar> * pow2 q"
    using p by (simp add: abs_mult)
  also have "\<dots> \<le> 1 / 2 * pow2 q"
    unfolding m_def using round_half_even_nearest [of "\<bar>x\<bar> / pow2 q"] p
    by (intro mult_right_mono) simp_all
  finally show "\<bar>of_int m * pow2 q - \<bar>x\<bar>\<bar> \<le> pow2 q / 2" by simp
qed


text \<open>
  A finite result is a double, \<open>m * 2\<^sup>q\<close> with at most 53 binary digits in \<open>m\<close> and
  \<open>q\<close> in the range of the format, and no double of the same exponent is nearer.
\<close>

lemma binary64_finite:
  assumes "binary64 x = Num y"
  shows "\<exists>m q. y = of_int m * pow2 q \<and> \<bar>m\<bar> \<le> 2 ^ 53 \<and> - 1074 \<le> q \<and> q \<le> 971
           \<and> \<bar>y - x\<bar> \<le> pow2 q / 2"
proof (cases "x = 0")
  case True
  with assms have "y = 0" by (simp add: binary64_def)
  then have "y = of_int 0 * pow2 0 \<and> \<bar>0::int\<bar> \<le> 2 ^ 53 \<and> - 1074 \<le> (0::int) \<and> (0::int) \<le> 971
      \<and> \<bar>y - x\<bar> \<le> pow2 0 / 2"
    using True by (simp add: pow2_def)
  then show ?thesis by blast
next
  case False
  define q where "q = max (ilog2 \<bar>x\<bar>) (- 1022) - 52"
  define m where "m = round_half_even (\<bar>x\<bar> / pow2 q)"
  note d = binary64_digits [OF False, folded q_def, folded m_def]
  from assms False have fin: "\<not> (971 < q \<or> (q = 971 \<and> 2 ^ 53 \<le> m))"
    and y: "y = (if 0 < x then of_int m * pow2 q else - (of_int m * pow2 q))"
    unfolding binary64_def Let_def q_def [symmetric] m_def [symmetric]
    by (simp_all split: if_splits)
  have q: "q \<le> 971" using fin by simp
  show ?thesis
  proof (cases "0 < x")
    case True
    then have "y = of_int m * pow2 q" "\<bar>y - x\<bar> = \<bar>of_int m * pow2 q - \<bar>x\<bar>\<bar>"
      using y by simp_all
    then have "y = of_int m * pow2 q \<and> \<bar>m\<bar> \<le> 2 ^ 53 \<and> - 1074 \<le> q \<and> q \<le> 971
        \<and> \<bar>y - x\<bar> \<le> pow2 q / 2"
      using d q by simp
    then show ?thesis by blast
  next
    case neg: False
    then have "y = of_int (- m) * pow2 q" "\<bar>y - x\<bar> = \<bar>of_int m * pow2 q - \<bar>x\<bar>\<bar>"
      using y False by simp_all
    then have "y = of_int (- m) * pow2 q \<and> \<bar>- m\<bar> \<le> 2 ^ 53 \<and> - 1074 \<le> q \<and> q \<le> 971
        \<and> \<bar>y - x\<bar> \<le> pow2 q / 2"
      using d q by simp
    then show ?thesis by blast
  qed
qed


lemma round_half_even_up:
  assumes "even b" and "of_int b - 1 / 2 \<le> x"
  shows "b \<le> round_half_even x"
proof -
  have "of_int (b - 1) \<le> x" using assms(2) by simp
  then have f: "b - 1 \<le> \<lfloor>x\<rfloor>" by (simp only: le_floor_iff)
  show ?thesis
  proof (cases "b \<le> \<lfloor>x\<rfloor>")
    case True
    then show ?thesis by (simp add: round_half_even_def Let_def)
  next
    case False
    with f have eq: "\<lfloor>x\<rfloor> = b - 1" by simp
    then have "odd \<lfloor>x\<rfloor>" using assms(1) by simp
    moreover have "1 / 2 \<le> x - of_int \<lfloor>x\<rfloor>"
      using assms(2) by (simp add: eq)
    ultimately show ?thesis
      by (simp add: round_half_even_def Let_def eq)
  qed
qed

text \<open>
  The result is finite exactly below the threshold of the format,
  \<open>2\<^sup>1\<^sup>0\<^sup>2\<^sup>4 - 2\<^sup>9\<^sup>7\<^sup>0\<close>, halfway between the largest double and \<open>2\<^sup>1\<^sup>0\<^sup>2\<^sup>4\<close>.
\<close>

lemma binary64_finite_iff: "(\<exists>y. binary64 x = Num y) \<longleftrightarrow> \<bar>x\<bar> < pow2 1024 - pow2 970"
proof (cases "x = 0")
  case True
  have "pow2 970 < pow2 1024"
    by (simp add: pow2_powi)
  with True show ?thesis by (simp add: binary64_def)
next
  case False
  define q where "q = max (ilog2 \<bar>x\<bar>) (- 1022) - 52"
  define m where "m = round_half_even (\<bar>x\<bar> / pow2 q)"
  note d = binary64_digits [OF False, folded q_def, folded m_def]
  have pos: "0 < \<bar>x\<bar>" using False by simp
  note e = ilog2_bounds [OF pos]
  have fin: "(\<exists>y. binary64 x = Num y) \<longleftrightarrow> \<not> (971 < q \<or> (q = 971 \<and> 2 ^ 53 \<le> m))"
    using False unfolding binary64_def Let_def q_def [symmetric] m_def [symmetric]
    by simp
  have half: "(2 ^ 53 - 1 / 2) * pow2 971 = pow2 1024 - pow2 970"
  proof -
    have "pow2 1024 = 2 ^ 53 * pow2 971" "pow2 971 = 2 * pow2 970"
      using pow2_add [of 53 971] pow2_Suc [of 970] by (simp_all add: pow2_nat [of 53, simplified])
    then show ?thesis by (simp add: left_diff_distrib)
  qed
  have "971 < q \<or> (q = 971 \<and> 2 ^ 53 \<le> m) \<longleftrightarrow> pow2 1024 - pow2 970 \<le> \<bar>x\<bar>"
  proof
    assume "971 < q \<or> (q = 971 \<and> 2 ^ 53 \<le> m)"
    then show "pow2 1024 - pow2 970 \<le> \<bar>x\<bar>"
    proof
      assume "971 < q"
      then have "1024 \<le> ilog2 \<bar>x\<bar>" by (simp add: q_def)
      then have "pow2 1024 \<le> pow2 (ilog2 \<bar>x\<bar>)" by (rule pow2_mono)
      with e have "pow2 1024 \<le> \<bar>x\<bar>" by simp
      then show ?thesis using pow2_pos [of 970] by simp
    next
      assume a: "q = 971 \<and> 2 ^ 53 \<le> m"
      then have "(2 ^ 53 :: rat) \<le> of_int m"
        by (metis of_int_le_iff of_int_numeral of_int_power)
      then have "2 ^ 53 * pow2 971 \<le> of_int m * pow2 971"
        using pow2_pos [of 971] by (simp only: mult_le_cancel_right_pos)
      moreover have "of_int m * pow2 971 - \<bar>x\<bar> \<le> pow2 971 / 2"
      proof -
        have "\<bar>of_int m * pow2 q - \<bar>x\<bar>\<bar> \<le> pow2 q / 2" by (rule d(4))
        then have "of_int m * pow2 q - \<bar>x\<bar> \<le> pow2 q / 2" by linarith
        then show ?thesis using a by (simp only:)
      qed
      ultimately have "(2 ^ 53 - 1 / 2) * pow2 971 \<le> \<bar>x\<bar>"
        by (simp add: left_diff_distrib)
      then show ?thesis by (simp only: half)
    qed
  next
    assume big: "pow2 1024 - pow2 970 \<le> \<bar>x\<bar>"
    show "971 < q \<or> (q = 971 \<and> 2 ^ 53 \<le> m)"
    proof (rule ccontr)
      assume "\<not> (971 < q \<or> (q = 971 \<and> 2 ^ 53 \<le> m))"
      then consider (low) "q < 971" | (top) "q = 971" "m < 2 ^ 53" by linarith
      then show False
      proof cases
        case low
        then have "ilog2 \<bar>x\<bar> + 1 \<le> 1023" by (simp add: q_def)
        then have "pow2 (ilog2 \<bar>x\<bar> + 1) \<le> pow2 1023" by (rule pow2_mono)
        with e have "\<bar>x\<bar> < pow2 1023" by simp
        moreover have "pow2 1023 \<le> pow2 1024 - pow2 970"
        proof -
          have "pow2 1024 = 2 * pow2 1023" using pow2_Suc [of 1023] by simp
          moreover have "pow2 970 \<le> pow2 1023" by (rule pow2_mono) simp
          ultimately show ?thesis by simp
        qed
        ultimately show False using big by simp
      next
        case top
        have "\<not> 2 ^ 53 \<le> round_half_even (\<bar>x\<bar> / pow2 q)"
          using top(2) by (simp add: m_def)
        then have "\<not> of_int (2 ^ 53) - 1 / 2 \<le> \<bar>x\<bar> / pow2 q"
          using round_half_even_up [of "2 ^ 53" "\<bar>x\<bar> / pow2 q"] by auto
        then have "\<bar>x\<bar> / pow2 971 < 2 ^ 53 - 1 / 2"
          using top(1) by simp
        then have "\<bar>x\<bar> < (2 ^ 53 - 1 / 2) * pow2 971"
          using pow2_pos [of 971] by (simp only: pos_divide_less_eq)
        then show False using big by (simp only: half)
      qed
    qed
  qed
  with fin show ?thesis by auto
qed


lemma round_half_even_of_int: "round_half_even (of_int z) = z"
  by (simp add: round_half_even_def)

lemma pow2_diff: "pow2 a = pow2 (a - b) * pow2 b"
  using pow2_add [of "a - b" b] by simp

text \<open>A number that is a double is not changed by the rounding.\<close>

lemma binary64_exact:
  assumes "\<bar>k\<bar> < 2 ^ 53" and "- 1074 \<le> j" and "j \<le> 971"
  shows "binary64 (of_int k * pow2 j) = Num (of_int k * pow2 j)"
proof (cases "k = 0")
  case True
  then show ?thesis by (simp add: binary64_def)
next
  case False
  define x where "x = of_int k * pow2 j"
  define q where "q = max (ilog2 \<bar>x\<bar>) (- 1022) - 52"
  define m where "m = round_half_even (\<bar>x\<bar> / pow2 q)"
  have x0: "x \<noteq> 0"
    using False pow2_pos [of j] by (simp add: x_def)
  have ax: "\<bar>x\<bar> = of_int \<bar>k\<bar> * pow2 j"
    using pow2_pos [of j] by (simp add: x_def abs_mult)
  have pos: "0 < \<bar>x\<bar>" using x0 by simp
  note e = ilog2_bounds [OF pos]
  have "(of_int \<bar>k\<bar> :: rat) < 2 ^ 53"
    using assms(1) by (metis of_int_less_iff of_int_numeral of_int_power)
  then have "\<bar>x\<bar> < 2 ^ 53 * pow2 j"
    using pow2_pos [of j] by (simp only: ax mult_less_cancel_right_pos)
  also have "\<dots> = pow2 (j + 53)"
    using pow2_add [of 53 j] by (simp add: pow2_nat [of 53, simplified] add.commute)
  finally have lt: "pow2 (ilog2 \<bar>x\<bar>) < pow2 (j + 53)"
    using e by simp
  have "ilog2 \<bar>x\<bar> < j + 53"
  proof (rule ccontr)
    assume "\<not> ilog2 \<bar>x\<bar> < j + 53"
    then have "pow2 (j + 53) \<le> pow2 (ilog2 \<bar>x\<bar>)" by (intro pow2_mono) simp
    with lt show False by simp
  qed
  then have qj: "q \<le> j" using assms(2) by (simp add: q_def)
  define n where "n = nat (j - q)"
  have "pow2 j = pow2 (j - q) * pow2 q" by (rule pow2_diff)
  also have "pow2 (j - q) = 2 ^ n"
    using qj by (simp add: pow2_def n_def)
  finally have pj: "pow2 j = 2 ^ n * pow2 q" .
  have "\<bar>x\<bar> / pow2 q = of_int \<bar>k\<bar> * 2 ^ n"
    using pow2_pos [of q] by (simp add: ax pj)
  also have "\<dots> = of_int (\<bar>k\<bar> * 2 ^ n)" by simp
  finally have m: "m = \<bar>k\<bar> * 2 ^ n"
    by (simp only: m_def round_half_even_of_int)
  have same: "of_int m * pow2 q = \<bar>x\<bar>"
    by (simp add: m ax pj)
  have "\<bar>x\<bar> < pow2 1024 - pow2 970"
  proof -
    have "of_int \<bar>k\<bar> \<le> (2 ^ 53 - 1 :: rat)"
    proof -
      have "\<bar>k\<bar> \<le> 2 ^ 53 - 1" using assms(1) by simp
      then have "(of_int \<bar>k\<bar> :: rat) \<le> of_int (2 ^ 53 - 1)" by (simp only: of_int_le_iff)
      then show ?thesis by simp
    qed
    then have "\<bar>x\<bar> \<le> (2 ^ 53 - 1) * pow2 j"
      using pow2_pos [of j] by (simp only: ax mult_le_cancel_right_pos)
    also have "\<dots> \<le> (2 ^ 53 - 1) * pow2 971"
      using pow2_mono [OF assms(3)] by (intro mult_left_mono) simp_all
    also have "\<dots> = pow2 1024 - pow2 971"
      using pow2_add [of 53 971] by (simp add: pow2_nat [of 53, simplified] left_diff_distrib)
    also have "\<dots> < pow2 1024 - pow2 970"
      using pow2_Suc [of 970] pow2_pos [of 970] by simp
    finally show ?thesis .
  qed
  then obtain y where y: "binary64 x = Num y"
    using binary64_finite_iff [of x] by blast
  then have "y = (if 0 < x then of_int m * pow2 q else - (of_int m * pow2 q))"
    using x0 unfolding binary64_def Let_def q_def [symmetric] m_def [symmetric]
    by (simp split: if_splits)
  then have "y = x" using x0 by (simp add: same)
  with y show ?thesis by (simp add: x_def)
qed

lemma binary64_of_nat: "n < 2 ^ 53 \<Longrightarrow> binary64 (of_nat n) = Num (of_nat n)"
proof -
  assume "n < 2 ^ 53"
  then have "\<bar>int n\<bar> < 2 ^ 53" by simp
  then have "binary64 (of_int (int n) * pow2 0) = Num (of_int (int n) * pow2 0)"
    by (rule binary64_exact) simp_all
  then show ?thesis by (simp add: pow2_def)
qed

text \<open>Dividing a number read from the buffer by 4 is exact.\<close>

lemma binary64_quarter: "n < 2 ^ 53 \<Longrightarrow> binary64 (of_nat n / 4) = Num (of_nat n / 4)"
proof -
  assume "n < 2 ^ 53"
  then have "\<bar>int n\<bar> < 2 ^ 53" by simp
  then have "binary64 (of_int (int n) * pow2 (- 2)) = Num (of_int (int n) * pow2 (- 2))"
    by (rule binary64_exact) simp_all
  then show ?thesis by (simp add: pow2_def)
qed

text \<open>
  So the quotient inside \<open>Math.floor(n / 4)\<close> is the exact quarter of the number read,
  and a byte or a 16-bit number is a double as it stands.
\<close>

lemma quarter_is_exact:
  "n < 2 ^ 53 \<Longrightarrow> js_divide (Num (of_nat n)) (Num 4) = Num (of_nat n / 4)"
  by (simp add: binary64_quarter)


text \<open>The literals of the voltage table, and two quotients, as doubles.\<close>

lemma double_9_615: "binary64 9.615 = Num (5412763802145915 / 562949953421312)"
  by code_simp

lemma double_6_4: "binary64 6.4 = Num (3602879701896397 / 562949953421312)"
  by code_simp

lemma double_100_by_40: "js_divide (Num 100) (Num 40) = Num (5 / 2)"
  by code_simp

lemma double_200_volts:
  "js_divide (js_times (Num 200) (binary64 9.615)) (Num 3893)
     = Num (139038371491033 / 281474976710656)"
  by code_simp

text \<open>
  The order of the two operations shows in the result, and so does the rounding: for the
  raw number 3 the source's \<open>3 * 9.615 / 3893\<close> is not \<open>3 * (9.615 / 3893)\<close>, and neither
  is the exact quotient.
\<close>

lemma double_3_volts:
  "js_divide (js_times (Num 3) (binary64 9.615)) (Num 3893)
     = Num (8542517544409067 / 1152921504606846976)"
  "js_times (Num 3) (js_divide (binary64 9.615) (Num 3893))
     = Num (2135629386102267 / 288230376151711744)"
  "(8542517544409067 / 1152921504606846976 :: rat) \<noteq> 2135629386102267 / 288230376151711744"
  "(8542517544409067 / 1152921504606846976 :: rat) \<noteq> 3 * 9.615 / 3893"
  by code_simp+


section \<open>The decoders\<close>

text \<open>
  What the colour sensor does in RGB mode, for every buffer: with ten bytes or more it
  emits one \<open>rgb\<close> event, otherwise the first read beyond the end throws.
\<close>

lemma rgb_receive:
  assumes "\<not> autoParse hub"
  shows "DuploTrainBaseColorSensor_receive hub (Some Mode_RGB) message =
     (if 10 \<le> length message
      then Emits [Notify ''rgb''
             (Obj [(''red'', Num (of_nat (u16_le message 4 div 4))),
                   (''green'', Num (of_nat (u16_le message 6 div 4))),
                   (''blue'', Num (of_nat (u16_le message 8 div 4)))])]
      else Throws RangeError)"
proof (cases "10 \<le> length message")
  case True
  then have "readUInt16LE message 4 = Inr (u16_le message 4)"
    "readUInt16LE message 6 = Inr (u16_le message 6)"
    "readUInt16LE message 8 = Inr (u16_le message 8)"
    by (simp_all add: readUInt16LE_inside)
  with assms True show ?thesis
    by (simp add: DuploTrainBaseColorSensor_receive_def color_modes floor_div4_eq)
next
  case False
  show ?thesis
  proof (cases "readUInt16LE message 4")
    case (Inl e)
    with assms False readUInt16LE_error [OF Inl] show ?thesis
      by (simp add: DuploTrainBaseColorSensor_receive_def color_modes)
  next
    case r: (Inr r)
    show ?thesis
    proof (cases "readUInt16LE message 6")
      case (Inl e)
      with assms False r readUInt16LE_error [OF Inl] show ?thesis
        by (simp add: DuploTrainBaseColorSensor_receive_def color_modes)
    next
      case g: (Inr g)
      from False have "readUInt16LE message 8 = Inl RangeError"
        by (simp add: readUInt16LE_outside)
      with assms False r g show ?thesis
        by (simp add: DuploTrainBaseColorSensor_receive_def color_modes)
    qed
  qed
qed

text \<open>The test \<open>message[4] <= 10\<close> holds exactly for a byte that is there and at most 10.\<close>

lemma js_le_byte: "js_le (Num (of_nat n)) 10 \<longleftrightarrow> n \<le> 10"
  by simp

lemma buf_index_inside: "i < length message \<Longrightarrow> buf_index message i = Num (of_nat (unat (message ! i)))"
  unfolding buf_index_def by (simp only: if_True)

lemma buf_index_outside: "length message \<le> i \<Longrightarrow> buf_index message i = Undefined"
  unfolding buf_index_def by (simp only: not_less [symmetric] if_False)

lemma js_le_buf_index:
  "js_le (buf_index message i) 10 \<longleftrightarrow> i < length message \<and> unat (message ! i) \<le> 10"
proof (cases "i < length message")
  case True
  then show ?thesis
    by (simp only: buf_index_inside js_le_byte simp_thms)
next
  case False
  then have "buf_index message i = Undefined"
    by (simp only: buf_index_outside not_less)
  with False show ?thesis
    by (simp only: js_le.simps simp_thms)
qed

lemma color_receive:
  assumes "\<not> autoParse hub"
  shows "DuploTrainBaseColorSensor_receive hub (Some Mode_COLOR) message =
     (if 4 < length message \<and> unat (message ! 4) \<le> 10
      then Emits [Notify ''color'' (Obj [(''color'', buf_index message 4)])]
      else Emits [])"
  unfolding DuploTrainBaseColorSensor_receive_def
  using assms by (simp only: js_le_buf_index if_False if_True simp_thms)

lemma reflect_receive:
  assumes "\<not> autoParse hub"
  shows "DuploTrainBaseColorSensor_receive hub (Some Mode_REFLECTIVITY) message =
     Emits [Notify ''reflect'' (Obj [(''reflect'', buf_index message 4)])]"
  using assms
  by (simp add: DuploTrainBaseColorSensor_receive_def color_modes)

lemma color_sensor_other_mode:
  assumes "\<not> autoParse hub" "mode \<noteq> Some Mode_COLOR" "mode \<noteq> Some Mode_REFLECTIVITY"
    "mode \<noteq> Some Mode_RGB"
  shows "DuploTrainBaseColorSensor_receive hub mode message = Emits []"
  using assms by (simp add: DuploTrainBaseColorSensor_receive_def)

lemma voltage_receive_wedo2:
  assumes "isWeDo2SmartHub hub"
  shows "VoltageSensor_receive hub (Some VoltageSensor_Mode_VOLTAGE) message =
     (case readInt16LE message 2 of
        Inl e \<Rightarrow> Throws RangeError
      | Inr v \<Rightarrow> Emits [EmitGlobal ''voltage'' (Val (js_divide (Num (of_int v)) (Num 40)))])"
proof (cases "readInt16LE message 2")
  case (Inl e)
  then have "e = RangeError"
    by (auto simp: readInt16LE_def dest: readUInt16LE_error split: sum.splits)
  with Inl assms show ?thesis by (simp add: VoltageSensor_receive_def)
next
  case (Inr v)
  with assms show ?thesis by (simp add: VoltageSensor_receive_def)
qed

lemma voltage_receive_tables:
  assumes "\<not> isWeDo2SmartHub hub"
  shows "VoltageSensor_receive hub (Some VoltageSensor_Mode_VOLTAGE) message =
     (if 6 \<le> length message
      then Emits [EmitGlobal ''voltage''
             (Val (scale_voltage (u16_le message 4)
                    (row_or_unknown MaxVoltageValue (hubType hub))
                    (row_or_unknown MaxVoltageRaw (hubType hub))))]
      else Throws RangeError)"
  using assms
  by (simp add: VoltageSensor_receive_def readUInt16LE_inside readUInt16LE_outside)

lemma voltage_other_mode:
  "mode \<noteq> Some VoltageSensor_Mode_VOLTAGE \<Longrightarrow> VoltageSensor_receive hub mode message = Emits []"
  by (simp add: VoltageSensor_receive_def)

text \<open>After the fallback both operands are numbers, whatever the hub type.\<close>

lemma MaxVoltageValue_fallback:
  "row_or_unknown MaxVoltageValue t =
     Some (if t = DUPLO_TRAIN_BASE \<or> t = REMOTE_CONTROL then binary64 6.4 else binary64 9.615)"
  by (cases t) (simp_all add: row_or_unknown_def)

lemma MaxVoltageRaw_fallback:
  "row_or_unknown MaxVoltageRaw t =
     Some (Num (if t = DUPLO_TRAIN_BASE then 3047 else if t = REMOTE_CONTROL then 3200
                else if t = TECHNIC_MEDIUM_HUB then 4095 else 3893))"
  by (cases t) (simp_all add: row_or_unknown_def)


section \<open>Facts about the hub\<close>

lemma map_of_obj_set: "map_of (obj_set k v xs) = (map_of xs)(k \<mapsto> v)"
  by (induction xs) (auto simp: fun_eq_iff)

lemma map_of_obj_delete: "map_of (obj_delete k xs) = (map_of xs)(k := None)"
  unfolding obj_delete_def by (induction xs) (auto simp: fun_eq_iff)

lemma set_obj_set: "set (obj_set k v xs) \<subseteq> insert (k, v) (set xs)"
  by (induction xs) (auto split: if_splits)

lemma sorted_obj_set:
  "sorted_wrt (<) (map fst xs) \<Longrightarrow> sorted_wrt (<) (map fst (obj_set k v xs))"
proof (induction xs)
  case Nil
  then show ?case by simp
next
  case (Cons a xs)
  have mem: "\<And>p. p \<in> set (obj_set k v xs) \<Longrightarrow> p = (k, v) \<or> p \<in> set xs"
    using set_obj_set [of k v xs] by blast
  with Cons show ?case by (cases a) (auto dest: mem)
qed

lemma sorted_obj_delete:
  "sorted_wrt (<) (map fst xs) \<Longrightarrow> sorted_wrt (<) (map fst (obj_delete k xs))"
  unfolding obj_delete_def by (induction xs) auto

lemma emits_of_append: "emits_of (xs @ ys) = emits_of xs @ emits_of ys"
  by (induction xs rule: emits_of.induct) simp_all

lemma calls_of_append: "calls_of (xs @ ys) = calls_of xs @ calls_of ys"
  by (induction xs rule: calls_of.induct) simp_all

lemma settled_of_append: "settled_of (xs @ ys) = settled_of xs @ settled_of ys"
  by (induction xs rule: settled_of.induct) simp_all

lemma emits_of_call_effects: "emits_of (concat (map (call_effects pm device) ws)) = []"
  by (induction ws) (simp_all add: call_effects_def emits_of_append)

lemma calls_of_call_effects: "calls_of (concat (map (call_effects pm device) ws)) = ws"
  by (induction ws) (simp_all add: call_effects_def calls_of_append)

lemma settled_of_call_effects:
  "settled_of (concat (map (call_effects pm device) ws)) =
     map (\<lambda>w. Resolve (promise w) device) (filter (satisfied pm device) ws)"
  by (induction ws) (simp_all add: call_effects_def settled_of_append)

lemma call_callback_eq:
  "call_callback w device s =
     (satisfied (portMap s) device w,
      s\<lparr>effects := effects s @ call_effects (portMap s) device w\<rparr>)"
  by (simp add: call_callback_def call_effects_def)

text \<open>
  The scan started at \<open>i\<close> calls the callbacks below \<open>i\<close> from the last to the first,
  drops those whose test holds and keeps every other entry where it was. The index it
  reads is always inside the array, so it never throws.
\<close>

lemma attach_scan_eq:
  "i \<le> length (attachCallbacks s) \<Longrightarrow>
   attach_scan i device s =
     Inr (s\<lparr>attachCallbacks :=
              filter (\<lambda>w. \<not> satisfied (portMap s) device w) (take i (attachCallbacks s))
                @ drop i (attachCallbacks s),
            effects :=
              effects s @ concat (map (call_effects (portMap s) device)
                                   (rev (take i (attachCallbacks s))))\<rparr>)"
proof (induction i arbitrary: s)
  case 0
  then show ?case by simp
next
  case (Suc i)
  let ?cbs = "attachCallbacks s"
  let ?w = "?cbs ! i"
  from Suc.prems have i: "i < length ?cbs" by simp
  have tk: "take (Suc i) ?cbs = take i ?cbs @ [?w]"
    using i by (simp add: take_Suc_conv_app_nth)
  show ?case
  proof (cases "satisfied (portMap s) device ?w")
    case True
    let ?s' = "s\<lparr>effects := effects s @ call_effects (portMap s) device ?w,
                  attachCallbacks := splice1 i ?cbs\<rparr>"
    have len: "i \<le> length (attachCallbacks ?s')"
      using i by (simp add: splice1_def)
    have tk': "take i (splice1 i ?cbs) = take i ?cbs"
      using i by (simp add: splice1_def)
    have dr': "drop i (splice1 i ?cbs) = drop (Suc i) ?cbs"
      using i by (simp add: splice1_def)
    have "attach_scan (Suc i) device s = attach_scan i device ?s'"
      using i True by (simp add: call_callback_eq)
    also have "\<dots> = Inr (?s'\<lparr>attachCallbacks :=
              filter (\<lambda>w. \<not> satisfied (portMap ?s') device w) (take i (attachCallbacks ?s'))
                @ drop i (attachCallbacks ?s'),
            effects :=
              effects ?s' @ concat (map (call_effects (portMap ?s') device)
                                   (rev (take i (attachCallbacks ?s'))))\<rparr>)"
      by (rule Suc.IH [OF len])
    finally show ?thesis
      using True by (simp add: tk tk' dr')
  next
    case False
    let ?s' = "s\<lparr>effects := effects s @ call_effects (portMap s) device ?w\<rparr>"
    have len: "i \<le> length (attachCallbacks ?s')"
      using i by simp
    have dr: "drop i ?cbs = ?w # drop (Suc i) ?cbs"
      using i by (simp add: Cons_nth_drop_Suc)
    have "attach_scan (Suc i) device s = attach_scan i device ?s'"
      using i False by (simp add: call_callback_eq)
    also have "\<dots> = Inr (?s'\<lparr>attachCallbacks :=
              filter (\<lambda>w. \<not> satisfied (portMap ?s') device w) (take i (attachCallbacks ?s'))
                @ drop i (attachCallbacks ?s'),
            effects :=
              effects ?s' @ concat (map (call_effects (portMap ?s') device)
                                   (rev (take i (attachCallbacks ?s'))))\<rparr>)"
      by (rule Suc.IH [OF len])
    finally show ?thesis
      using False by (simp add: tk dr)
  qed
qed

lemma BaseHub_attachDevice_eq:
  "BaseHub_attachDevice device s =
     Inr (s\<lparr>attachedDevices := obj_set (portId device) device (attachedDevices s),
            attachCallbacks :=
              filter (\<lambda>w. \<not> satisfied (portMap s) device w) (attachCallbacks s),
            effects :=
              effects s @ Emit ''attach'' device
                # concat (map (call_effects (portMap s) device) (rev (attachCallbacks s)))\<rparr>)"
  by (simp add: BaseHub_attachDevice_def emit_def attach_scan_eq)

lemma forEach_callback_eq:
  "forEach_callback ws device s =
     s\<lparr>effects := effects s @ concat (map (call_effects (portMap s) device) ws)\<rparr>"
  by (induction ws arbitrary: s) (simp_all add: call_callback_eq)

lemma Hub_attachDevice_eq:
  "Hub_attachDevice device s =
     s\<lparr>attachedDevices := obj_set (portId device) device (attachedDevices s),
       effects :=
         effects s @ Emit ''attach'' device
           # concat (map (call_effects (portMap s) device) (attachCallbacks s))\<rparr>"
  by (simp add: Hub_attachDevice_def emit_def forEach_callback_eq)


section \<open>Claims about the decoders\<close>

text \<open>
  Claim C5. The Duplo train colour sensor in \<open>COLOR\<close> mode, decoding by itself (the hub's
  \<open>autoParse\<close> switch is off), on a buffer that has a byte at offset 4: when that byte is
  at most 10 it emits one \<open>color\<close> event whose payload is the byte, and when the byte is
  above 10 it emits no event at all.
\<close>

theorem color_mode_emits_codes_up_to_10:
  assumes "\<not> autoParse hub" and "4 < length message"
  shows "DuploTrainBaseColorSensor_receive hub (Some Mode_COLOR) message =
     (if unat (message ! 4) \<le> 10
      then Emits [Notify ''color'' (Obj [(''color'', Num (of_nat (unat (message ! 4))))])]
      else Emits [])"
  using assms by (simp only: color_receive buf_index_inside simp_thms)

text \<open>Byte 7 is reported as \<open>{ color: 7 }\<close>; byte 11 is not reported.\<close>

theorem color_mode_emits_codes_up_to_10_witness:
  "\<not> autoParse \<lparr>hubType = DUPLO_TRAIN_BASE, autoParse = False\<rparr>
   \<and> 4 < length [0, 0, 0, 0, 7 :: 8 word]
   \<and> DuploTrainBaseColorSensor_receive \<lparr>hubType = DUPLO_TRAIN_BASE, autoParse = False\<rparr>
        (Some Mode_COLOR) [0, 0, 0, 0, 7]
      = Emits [Notify ''color'' (Obj [(''color'', Num 7)])]
   \<and> DuploTrainBaseColorSensor_receive \<lparr>hubType = DUPLO_TRAIN_BASE, autoParse = False\<rparr>
        (Some Mode_COLOR) [0, 0, 0, 0, 11]
      = Emits []"
  using color_mode_emits_codes_up_to_10
          [of "\<lparr>hubType = DUPLO_TRAIN_BASE, autoParse = False\<rparr>" "[0, 0, 0, 0, 7]"]
        color_mode_emits_codes_up_to_10
          [of "\<lparr>hubType = DUPLO_TRAIN_BASE, autoParse = False\<rparr>" "[0, 0, 0, 0, 11]"]
  by simp

text \<open>
  Claim C6. The Duplo train colour sensor in \<open>RGB\<close> mode, decoding by itself: whenever it
  emits, it emits exactly one \<open>rgb\<close> event whose \<open>red\<close>, \<open>green\<close> and \<open>blue\<close> are the
  little-endian unsigned 16-bit numbers at offsets 4, 6 and 8, each divided by 4 and rounded
  down; and it does emit on every buffer that holds the three numbers.
\<close>

theorem rgb_mode_quarters_each_channel:
  assumes "\<not> autoParse hub"
  shows "(10 \<le> length message \<longrightarrow>
           DuploTrainBaseColorSensor_receive hub (Some Mode_RGB) message =
             Emits [Notify ''rgb''
               (Obj [(''red'', Num (of_nat (u16_le message 4 div 4))),
                     (''green'', Num (of_nat (u16_le message 6 div 4))),
                     (''blue'', Num (of_nat (u16_le message 8 div 4)))])])
       \<and> (\<forall>events.
            DuploTrainBaseColorSensor_receive hub (Some Mode_RGB) message = Emits events \<longrightarrow>
            events = [Notify ''rgb''
               (Obj [(''red'', Num (of_nat (u16_le message 4 div 4))),
                     (''green'', Num (of_nat (u16_le message 6 div 4))),
                     (''blue'', Num (of_nat (u16_le message 8 div 4)))])])"
  using assms by (simp add: rgb_receive)

text \<open>The raw numbers 400, 800 and 1200 give \<open>{ red: 100, green: 200, blue: 300 }\<close>.\<close>

theorem rgb_mode_quarters_each_channel_witness:
  "\<not> autoParse \<lparr>hubType = DUPLO_TRAIN_BASE, autoParse = False\<rparr>
   \<and> 10 \<le> length [0, 0, 0, 0, 144, 1, 32, 3, 176, 4 :: 8 word]
   \<and> u16_le [0, 0, 0, 0, 144, 1, 32, 3, 176, 4] 4 = 400
   \<and> u16_le [0, 0, 0, 0, 144, 1, 32, 3, 176, 4] 6 = 800
   \<and> u16_le [0, 0, 0, 0, 144, 1, 32, 3, 176, 4] 8 = 1200
   \<and> DuploTrainBaseColorSensor_receive \<lparr>hubType = DUPLO_TRAIN_BASE, autoParse = False\<rparr>
        (Some Mode_RGB) [0, 0, 0, 0, 144, 1, 32, 3, 176, 4]
      = Emits [Notify ''rgb''
          (Obj [(''red'', Num 100), (''green'', Num 200), (''blue'', Num 300)])]"
proof -
  have raw: "u16_le [0, 0, 0, 0, 144, 1, 32, 3, 176, 4] 4 = 400"
    "u16_le [0, 0, 0, 0, 144, 1, 32, 3, 176, 4] 6 = 800"
    "u16_le [0, 0, 0, 0, 144, 1, 32, 3, 176, 4] 8 = 1200"
    unfolding u16_le_def by (simp_all only: u16_cat) simp_all
  have off: "\<not> autoParse \<lparr>hubType = DUPLO_TRAIN_BASE, autoParse = False\<rparr>"
    by simp
  have len: "10 \<le> length [0, 0, 0, 0, 144, 1, 32, 3, 176, 4 :: 8 word]"
    by simp
  have "DuploTrainBaseColorSensor_receive \<lparr>hubType = DUPLO_TRAIN_BASE, autoParse = False\<rparr>
          (Some Mode_RGB) [0, 0, 0, 0, 144, 1, 32, 3, 176, 4]
        = Emits [Notify ''rgb''
            (Obj [(''red'', Num (of_nat (400 div 4))), (''green'', Num (of_nat (800 div 4))),
                  (''blue'', Num (of_nat (1200 div 4)))])]"
    using rgb_mode_quarters_each_channel [OF off, THEN conjunct1, THEN mp, OF len]
    by (simp only: raw)
  then show ?thesis
    using off len raw by simp
qed

lemma color_modes_distinct:
  "Mode_COLOR \<noteq> Mode_REFLECTIVITY" "Mode_COLOR \<noteq> Mode_RGB" "Mode_REFLECTIVITY \<noteq> Mode_RGB"
  by (simp_all add: color_modes)

lemma color_sensor_throws_iff:
  assumes "\<not> autoParse hub"
  shows "(\<exists>e. DuploTrainBaseColorSensor_receive hub mode message = Throws e)
           \<longleftrightarrow> mode = Some Mode_RGB \<and> length message < 10"
proof -
  consider (color) "mode = Some Mode_COLOR" | (reflect) "mode = Some Mode_REFLECTIVITY"
    | (rgb) "mode = Some Mode_RGB"
    | (other) "mode \<noteq> Some Mode_COLOR" "mode \<noteq> Some Mode_REFLECTIVITY" "mode \<noteq> Some Mode_RGB"
    by blast
  then show ?thesis
  proof cases
    case color
    then show ?thesis using assms color_modes_distinct by (simp add: color_receive)
  next
    case reflect
    then show ?thesis using assms color_modes_distinct by (simp add: reflect_receive)
  next
    case rgb
    then show ?thesis using assms by (simp add: rgb_receive)
  next
    case other
    then show ?thesis using assms by (simp add: color_sensor_other_mode)
  qed
qed

lemma color_sensor_throws_RangeError:
  assumes "\<not> autoParse hub"
    and "DuploTrainBaseColorSensor_receive hub mode message = Throws e"
  shows "e = RangeError"
proof -
  from assms have "mode = Some Mode_RGB \<and> length message < 10"
    using color_sensor_throws_iff [OF assms(1), of mode message] by blast
  with assms show ?thesis by (simp add: rgb_receive)
qed

lemma voltage_throws_iff:
  "(\<exists>e. VoltageSensor_receive hub mode message = Throws e)
     \<longleftrightarrow> mode = Some VoltageSensor_Mode_VOLTAGE
         \<and> length message < (if isWeDo2SmartHub hub then 4 else 6)"
proof (cases "mode = Some VoltageSensor_Mode_VOLTAGE")
  case False
  then show ?thesis by (simp add: voltage_other_mode)
next
  case mode: True
  show ?thesis
  proof (cases "isWeDo2SmartHub hub")
    case False
    with mode show ?thesis by (simp add: voltage_receive_tables)
  next
    case True
    show ?thesis
    proof (cases "4 \<le> length message")
      case long: True
      then obtain v where "readInt16LE message 2 = Inr v"
        using readInt16LE_inside [of 2 message] by auto
      with mode True long show ?thesis by (simp add: voltage_receive_wedo2)
    next
      case short: False
      then have "readInt16LE message 2 = Inl RangeError"
        by (simp add: readInt16LE_outside)
      with mode True short show ?thesis by (simp add: voltage_receive_wedo2)
    qed
  qed
qed

lemma voltage_throws_RangeError:
  assumes "VoltageSensor_receive hub mode message = Throws e"
  shows "e = RangeError"
proof -
  have mode: "mode = Some VoltageSensor_Mode_VOLTAGE"
    using assms voltage_throws_iff [of hub mode message] by blast
  show ?thesis
  proof (cases "isWeDo2SmartHub hub")
    case True
    with assms mode show ?thesis
      by (simp add: voltage_receive_wedo2 split: sum.splits)
  next
    case False
    with assms mode show ?thesis
      by (simp add: voltage_receive_tables split: if_splits)
  qed
qed

lemma button_never_throws: "RemoteControlButton_receive mode message \<noteq> Throws e"
  by (simp add: RemoteControlButton_receive_def)


lemma button_receive:
  "RemoteControlButton_receive (Some RemoteControlButton_Mode_BUTTON_EVENTS) message =
     Emits [EmitGlobal ''remoteButton'' (Val (buf_index message 4))]"
  by (simp add: RemoteControlButton_receive_def)

text \<open>
  Claim C3, as stated, fails on truncated buffers in every mode but \<open>COLOR\<close>. In \<open>RGB\<close>
  mode a buffer of five bytes makes \<open>readUInt16LE(4)\<close> raise a \<open>RangeError\<close>, and so
  does \<open>readUInt16LE(4)\<close> of the voltage sensor; \<open>receive\<close> hands the error to its
  caller. In \<open>REFLECTIVITY\<close> mode and in \<open>BUTTON_EVENTS\<close> mode a buffer of three bytes
  does not throw, but the event is emitted all the same, carrying \<open>undefined\<close>.
\<close>

theorem receive_truncated_throws_or_emits_undefined:
  "DuploTrainBaseColorSensor_receive \<lparr>hubType = DUPLO_TRAIN_BASE, autoParse = False\<rparr>
     (Some Mode_RGB) [0, 0, 0, 0, 144] = Throws RangeError
   \<and> VoltageSensor_receive \<lparr>hubType = DUPLO_TRAIN_BASE, autoParse = False\<rparr>
     (Some VoltageSensor_Mode_VOLTAGE) [0, 0, 0, 0, 200] = Throws RangeError
   \<and> DuploTrainBaseColorSensor_receive \<lparr>hubType = DUPLO_TRAIN_BASE, autoParse = False\<rparr>
     (Some Mode_REFLECTIVITY) [0, 0, 0]
       = Emits [Notify ''reflect'' (Obj [(''reflect'', Undefined)])]
   \<and> RemoteControlButton_receive (Some RemoteControlButton_Mode_BUTTON_EVENTS) [0, 0, 0]
       = Emits [EmitGlobal ''remoteButton'' (Val Undefined)]"
  by (simp add: rgb_receive reflect_receive button_receive voltage_receive_tables
        isWeDo2SmartHub_def buf_index_def)

text \<open>
  Claim C3, amended. With the hub's \<open>autoParse\<close> switch off, for each of the three decoders
  and every buffer. In a mode the decoder does not know, \<open>receive\<close> does nothing: it
  emits no event and does not throw. On a truncated buffer, \<open>COLOR\<close> mode emits no event
  and does not throw; \<open>REFLECTIVITY\<close> mode and \<open>BUTTON_EVENTS\<close> mode do not throw and
  emit their event with the value \<open>undefined\<close>; \<open>RGB\<close> mode (fewer than 10 bytes) and
  \<open>VOLTAGE\<close> mode (fewer than 6 bytes, 4 on a WeDo 2.0 Smart Hub) emit no event and
  throw a \<open>RangeError\<close>. These are the only throws: \<open>receive\<close> throws exactly when the
  active mode reads a 16-bit field that does not lie inside the buffer.
\<close>

theorem receive_on_unknown_mode_and_truncated_buffer:
  assumes "\<not> autoParse hub"
  shows "(mode \<noteq> Some Mode_COLOR \<and> mode \<noteq> Some Mode_REFLECTIVITY \<and> mode \<noteq> Some Mode_RGB \<longrightarrow>
            DuploTrainBaseColorSensor_receive hub mode message = Emits [])
       \<and> (mode \<noteq> Some VoltageSensor_Mode_VOLTAGE \<longrightarrow>
            VoltageSensor_receive hub mode message = Emits [])
       \<and> (mode \<noteq> Some RemoteControlButton_Mode_BUTTON_EVENTS \<longrightarrow>
            RemoteControlButton_receive mode message = Emits [])
       \<and> (length message \<le> 4 \<longrightarrow>
            DuploTrainBaseColorSensor_receive hub (Some Mode_COLOR) message = Emits [])
       \<and> (length message \<le> 4 \<longrightarrow>
            DuploTrainBaseColorSensor_receive hub (Some Mode_REFLECTIVITY) message =
              Emits [Notify ''reflect'' (Obj [(''reflect'', Undefined)])])
       \<and> (length message \<le> 4 \<longrightarrow>
            RemoteControlButton_receive (Some RemoteControlButton_Mode_BUTTON_EVENTS) message =
              Emits [EmitGlobal ''remoteButton'' (Val Undefined)])
       \<and> (length message < 10 \<longrightarrow>
            DuploTrainBaseColorSensor_receive hub (Some Mode_RGB) message = Throws RangeError)
       \<and> (length message < (if isWeDo2SmartHub hub then 4 else 6) \<longrightarrow>
            VoltageSensor_receive hub (Some VoltageSensor_Mode_VOLTAGE) message
              = Throws RangeError)
       \<and> ((\<exists>e. DuploTrainBaseColorSensor_receive hub mode message = Throws e)
            \<longleftrightarrow> mode = Some Mode_RGB \<and> length message < 10)
       \<and> ((\<exists>e. VoltageSensor_receive hub mode message = Throws e)
            \<longleftrightarrow> mode = Some VoltageSensor_Mode_VOLTAGE
                \<and> length message < (if isWeDo2SmartHub hub then 4 else 6))
       \<and> (\<forall>e. RemoteControlButton_receive mode message \<noteq> Throws e)
       \<and> (\<forall>e. DuploTrainBaseColorSensor_receive hub mode message = Throws e
               \<or> VoltageSensor_receive hub mode message = Throws e \<longrightarrow> e = RangeError)"
proof -
  have unknown_color: "mode \<noteq> Some Mode_COLOR \<and> mode \<noteq> Some Mode_REFLECTIVITY
      \<and> mode \<noteq> Some Mode_RGB \<longrightarrow> DuploTrainBaseColorSensor_receive hub mode message = Emits []"
    using assms by (simp add: color_sensor_other_mode)
  have unknown_voltage: "mode \<noteq> Some VoltageSensor_Mode_VOLTAGE \<longrightarrow>
      VoltageSensor_receive hub mode message = Emits []"
    by (simp add: voltage_other_mode)
  have unknown_button: "mode \<noteq> Some RemoteControlButton_Mode_BUTTON_EVENTS \<longrightarrow>
      RemoteControlButton_receive mode message = Emits []"
    by (simp add: RemoteControlButton_receive_def)
  have short_color: "length message \<le> 4 \<longrightarrow>
      DuploTrainBaseColorSensor_receive hub (Some Mode_COLOR) message = Emits []"
    using assms by (simp add: color_receive)
  have short_reflect: "length message \<le> 4 \<longrightarrow>
      DuploTrainBaseColorSensor_receive hub (Some Mode_REFLECTIVITY) message =
        Emits [Notify ''reflect'' (Obj [(''reflect'', Undefined)])]"
    using assms by (simp add: reflect_receive buf_index_outside)
  have short_button: "length message \<le> 4 \<longrightarrow>
      RemoteControlButton_receive (Some RemoteControlButton_Mode_BUTTON_EVENTS) message =
        Emits [EmitGlobal ''remoteButton'' (Val Undefined)]"
    by (simp add: button_receive buf_index_outside)
  have short_rgb: "length message < 10 \<longrightarrow>
      DuploTrainBaseColorSensor_receive hub (Some Mode_RGB) message = Throws RangeError"
    using assms by (simp add: rgb_receive)
  have short_voltage: "length message < (if isWeDo2SmartHub hub then 4 else 6) \<longrightarrow>
      VoltageSensor_receive hub (Some VoltageSensor_Mode_VOLTAGE) message = Throws RangeError"
    using voltage_throws_iff [of hub "Some VoltageSensor_Mode_VOLTAGE" message]
      voltage_throws_RangeError [of hub "Some VoltageSensor_Mode_VOLTAGE" message]
    by blast
  have kinds: "\<forall>e. DuploTrainBaseColorSensor_receive hub mode message = Throws e
               \<or> VoltageSensor_receive hub mode message = Throws e \<longrightarrow> e = RangeError"
    using color_sensor_throws_RangeError [OF assms] voltage_throws_RangeError by blast
  show ?thesis
    using unknown_color unknown_voltage unknown_button short_color short_reflect short_button
      short_rgb short_voltage kinds
      color_sensor_throws_iff [OF assms, of mode message]
      voltage_throws_iff [of hub mode message] button_never_throws [of mode message]
    by blast
qed

text \<open>
  Mode 1 is known to none of the three decoders: nothing is emitted on the three-byte
  buffer. The same buffer emits nothing in \<open>COLOR\<close> mode, emits \<open>undefined\<close> in
  \<open>REFLECTIVITY\<close> and \<open>BUTTON_EVENTS\<close> mode and throws in \<open>RGB\<close> and \<open>VOLTAGE\<close> mode; a
  ten-byte buffer does not throw in \<open>RGB\<close> mode.
\<close>

theorem receive_on_unknown_mode_and_truncated_buffer_witness:
  "\<not> autoParse \<lparr>hubType = DUPLO_TRAIN_BASE, autoParse = False\<rparr>
   \<and> length [0, 0, 0 :: 8 word] \<le> 4
   \<and> DuploTrainBaseColorSensor_receive \<lparr>hubType = DUPLO_TRAIN_BASE, autoParse = False\<rparr>
        (Some 1) [0, 0, 0] = Emits []
   \<and> VoltageSensor_receive \<lparr>hubType = DUPLO_TRAIN_BASE, autoParse = False\<rparr>
        (Some 1) [0, 0, 0] = Emits []
   \<and> RemoteControlButton_receive (Some 1) [0, 0, 0] = Emits []
   \<and> DuploTrainBaseColorSensor_receive \<lparr>hubType = DUPLO_TRAIN_BASE, autoParse = False\<rparr>
        (Some Mode_COLOR) [0, 0, 0] = Emits []
   \<and> DuploTrainBaseColorSensor_receive \<lparr>hubType = DUPLO_TRAIN_BASE, autoParse = False\<rparr>
        (Some Mode_REFLECTIVITY) [0, 0, 0]
        = Emits [Notify ''reflect'' (Obj [(''reflect'', Undefined)])]
   \<and> RemoteControlButton_receive (Some RemoteControlButton_Mode_BUTTON_EVENTS) [0, 0, 0]
        = Emits [EmitGlobal ''remoteButton'' (Val Undefined)]
   \<and> DuploTrainBaseColorSensor_receive \<lparr>hubType = DUPLO_TRAIN_BASE, autoParse = False\<rparr>
        (Some Mode_RGB) [0, 0, 0] = Throws RangeError
   \<and> VoltageSensor_receive \<lparr>hubType = DUPLO_TRAIN_BASE, autoParse = False\<rparr>
        (Some VoltageSensor_Mode_VOLTAGE) [0, 0, 0] = Throws RangeError
   \<and> \<not> (\<exists>e. DuploTrainBaseColorSensor_receive \<lparr>hubType = DUPLO_TRAIN_BASE, autoParse = False\<rparr>
        (Some Mode_RGB) [0, 0, 0, 0, 144, 1, 32, 3, 176, 4] = Throws e)"
proof -
  have off: "\<not> autoParse \<lparr>hubType = DUPLO_TRAIN_BASE, autoParse = False\<rparr>"
    by simp
  have modes: "Some (1::nat) \<noteq> Some Mode_COLOR" "Some (1::nat) \<noteq> Some Mode_REFLECTIVITY"
    "Some (1::nat) \<noteq> Some Mode_RGB" "Some (1::nat) \<noteq> Some VoltageSensor_Mode_VOLTAGE"
    "Some (1::nat) \<noteq> Some RemoteControlButton_Mode_BUTTON_EVENTS"
    by (simp_all add: color_modes VoltageSensor_Mode_VOLTAGE_def
          RemoteControlButton_Mode_BUTTON_EVENTS_def)
  have short: "length [0, 0, 0 :: 8 word] \<le> 4" "length [0, 0, 0 :: 8 word] < 10"
    "length [0, 0, 0 :: 8 word]
       < (if isWeDo2SmartHub \<lparr>hubType = DUPLO_TRAIN_BASE, autoParse = False\<rparr> then 4 else 6)"
    by (simp_all add: isWeDo2SmartHub_def)
  note unknown = receive_on_unknown_mode_and_truncated_buffer [OF off, of "Some 1" "[0, 0, 0]"]
  note long = receive_on_unknown_mode_and_truncated_buffer
                 [OF off, of "Some Mode_RGB" "[0, 0, 0, 0, 144, 1, 32, 3, 176, 4]"]
  have a: "DuploTrainBaseColorSensor_receive \<lparr>hubType = DUPLO_TRAIN_BASE, autoParse = False\<rparr>
        (Some 1) [0, 0, 0] = Emits []"
    using unknown modes by blast
  have b: "VoltageSensor_receive \<lparr>hubType = DUPLO_TRAIN_BASE, autoParse = False\<rparr>
        (Some 1) [0, 0, 0] = Emits []"
    using unknown modes by blast
  have c: "RemoteControlButton_receive (Some 1) [0, 0, 0] = Emits []"
    using unknown modes by blast
  have d: "DuploTrainBaseColorSensor_receive \<lparr>hubType = DUPLO_TRAIN_BASE, autoParse = False\<rparr>
        (Some Mode_COLOR) [0, 0, 0] = Emits []"
    using unknown short(1) by blast
  have e: "DuploTrainBaseColorSensor_receive \<lparr>hubType = DUPLO_TRAIN_BASE, autoParse = False\<rparr>
        (Some Mode_REFLECTIVITY) [0, 0, 0]
        = Emits [Notify ''reflect'' (Obj [(''reflect'', Undefined)])]"
    using unknown short(1) by blast
  have f: "RemoteControlButton_receive (Some RemoteControlButton_Mode_BUTTON_EVENTS) [0, 0, 0]
        = Emits [EmitGlobal ''remoteButton'' (Val Undefined)]"
    using unknown short(1) by blast
  have g: "DuploTrainBaseColorSensor_receive \<lparr>hubType = DUPLO_TRAIN_BASE, autoParse = False\<rparr>
        (Some Mode_RGB) [0, 0, 0] = Throws RangeError"
    using unknown short(2) by blast
  have h: "VoltageSensor_receive \<lparr>hubType = DUPLO_TRAIN_BASE, autoParse = False\<rparr>
        (Some VoltageSensor_Mode_VOLTAGE) [0, 0, 0] = Throws RangeError"
    using unknown short(3) by blast
  have i: "\<not> (\<exists>e. DuploTrainBaseColorSensor_receive \<lparr>hubType = DUPLO_TRAIN_BASE, autoParse = False\<rparr>
        (Some Mode_RGB) [0, 0, 0, 0, 144, 1, 32, 3, 176, 4] = Throws e)"
    using long by simp
  show ?thesis
    by (intro conjI) (fact off short(1) a b c d e f g h i)+
qed

text \<open>
  Claim C4, as stated, fails: the WeDo 2.0 Smart Hub has no row in either table, yet its
  voltage sensor does not use the \<open>UNKNOWN\<close> rows. The raw number at offset 4 is 200; the
  value emitted is the signed number at offset 2 divided by 40, which is 2.5 and not the
  double \<open>200 * 9.615 / 3893\<close>.
\<close>

theorem voltage_wedo2_skips_the_tables:
  "MaxVoltageValue WEDO2_SMART_HUB = None
   \<and> MaxVoltageRaw WEDO2_SMART_HUB = None
   \<and> readUInt16LE [0, 0, 100, 0, 200, 0] 4 = Inr 200
   \<and> VoltageSensor_receive \<lparr>hubType = WEDO2_SMART_HUB, autoParse = False\<rparr>
        (Some VoltageSensor_Mode_VOLTAGE) [0, 0, 100, 0, 200, 0]
      = Emits [EmitGlobal ''voltage'' (Val (Num (5 / 2)))]
   \<and> js_divide (js_times (Num 200) (binary64 9.615)) (Num 3893) \<noteq> Num (5 / 2)"
proof -
  have wedo2: "isWeDo2SmartHub \<lparr>hubType = WEDO2_SMART_HUB, autoParse = False\<rparr>"
    by (simp add: isWeDo2SmartHub_def)
  have signed: "readInt16LE [0, 0, 100, 0, 200, 0] 2 = Inr 100"
    by (simp add: readInt16LE_def readUInt16LE_def)
  have "VoltageSensor_receive \<lparr>hubType = WEDO2_SMART_HUB, autoParse = False\<rparr>
        (Some VoltageSensor_Mode_VOLTAGE) [0, 0, 100, 0, 200, 0]
      = Emits [EmitGlobal ''voltage'' (Val (js_divide (Num (of_int 100)) (Num 40)))]"
    by (simp only: voltage_receive_wedo2 [OF wedo2] signed sum.case)
  then have emitted: "VoltageSensor_receive \<lparr>hubType = WEDO2_SMART_HUB, autoParse = False\<rparr>
        (Some VoltageSensor_Mode_VOLTAGE) [0, 0, 100, 0, 200, 0]
      = Emits [EmitGlobal ''voltage'' (Val (Num (5 / 2)))]"
    by (simp only: of_int_numeral double_100_by_40)
  have rows: "MaxVoltageValue WEDO2_SMART_HUB = None" "MaxVoltageRaw WEDO2_SMART_HUB = None"
    by simp_all
  have raw: "readUInt16LE [0, 0, 100, 0, 200, 0] 4 = Inr 200"
    by (simp add: readUInt16LE_def)
  have other: "js_divide (js_times (Num 200) (binary64 9.615)) (Num 3893) \<noteq> Num (5 / 2)"
    by (simp only: double_200_volts) simp
  show ?thesis
    by (intro conjI) (fact rows raw emitted other)+
qed

text \<open>
  Claim C4, amended. For every hub type other than the WeDo 2.0 Smart Hub and every buffer
  that holds bytes 4 and 5, the voltage sensor in \<open>VOLTAGE\<close> mode looks each table up on
  its own, a table without a row for the hub type giving its \<open>UNKNOWN\<close> row; when neither
  table has a row it emits the number \<open>rawValue * 9.615 / 3893\<close> as JavaScript computes
  it, in doubles from left to right, where \<open>rawValue\<close> is the little-endian unsigned
  16-bit number at offset 4. The lookup has a value for every hub type.
\<close>

theorem voltage_falls_back_to_unknown_rows:
  assumes "hubType hub \<noteq> WEDO2_SMART_HUB" and "6 \<le> length message"
  shows "(MaxVoltageValue (hubType hub) = None \<longrightarrow>
            row_or_unknown MaxVoltageValue (hubType hub) = Some (binary64 9.615))
       \<and> (MaxVoltageRaw (hubType hub) = None \<longrightarrow>
            row_or_unknown MaxVoltageRaw (hubType hub) = Some (Num 3893))
       \<and> VoltageSensor_receive hub (Some VoltageSensor_Mode_VOLTAGE) message =
            Emits [EmitGlobal ''voltage''
              (Val (scale_voltage (u16_le message 4)
                     (row_or_unknown MaxVoltageValue (hubType hub))
                     (row_or_unknown MaxVoltageRaw (hubType hub))))]
       \<and> (MaxVoltageValue (hubType hub) = None \<and> MaxVoltageRaw (hubType hub) = None \<longrightarrow>
            VoltageSensor_receive hub (Some VoltageSensor_Mode_VOLTAGE) message =
              Emits [EmitGlobal ''voltage''
                (Val (js_divide (js_times (Num (of_nat (u16_le message 4))) (binary64 9.615))
                       (Num 3893)))])
       \<and> row_or_unknown MaxVoltageValue (hubType hub) \<noteq> None
       \<and> row_or_unknown MaxVoltageRaw (hubType hub) \<noteq> None"
proof -
  have tables: "\<not> isWeDo2SmartHub hub"
    using assms(1) by (simp add: isWeDo2SmartHub_def)
  have v: "MaxVoltageValue (hubType hub) = None \<longrightarrow>
            row_or_unknown MaxVoltageValue (hubType hub) = Some (binary64 9.615)"
    by (simp add: row_or_unknown_def)
  have r: "MaxVoltageRaw (hubType hub) = None \<longrightarrow>
            row_or_unknown MaxVoltageRaw (hubType hub) = Some (Num 3893)"
    by (simp add: row_or_unknown_def)
  have emitted: "VoltageSensor_receive hub (Some VoltageSensor_Mode_VOLTAGE) message =
            Emits [EmitGlobal ''voltage''
              (Val (scale_voltage (u16_le message 4)
                     (row_or_unknown MaxVoltageValue (hubType hub))
                     (row_or_unknown MaxVoltageRaw (hubType hub))))]"
    using tables assms(2) by (simp add: voltage_receive_tables)
  have both: "MaxVoltageValue (hubType hub) = None \<and> MaxVoltageRaw (hubType hub) = None \<longrightarrow>
            VoltageSensor_receive hub (Some VoltageSensor_Mode_VOLTAGE) message =
              Emits [EmitGlobal ''voltage''
                (Val (js_divide (js_times (Num (of_nat (u16_le message 4))) (binary64 9.615))
                       (Num 3893)))]"
    using emitted v r by (auto simp only: scale_voltage_def js_value.simps)
  have total: "row_or_unknown MaxVoltageValue (hubType hub) \<noteq> None"
    "row_or_unknown MaxVoltageRaw (hubType hub) \<noteq> None"
    by (simp_all add: MaxVoltageValue_fallback MaxVoltageRaw_fallback)
  show ?thesis
    using v r emitted both total by blast
qed

text \<open>
  On a Move Hub, which has no row in either table, the raw number 200 is reported as the
  double \<open>200 * 9.615 / 3893\<close>, which JavaScript prints as \<open>0.49396352427433854\<close>: its
  exact value is \<open>139038371491033 / 2\<^sup>4\<^sup>8\<close>.
\<close>

theorem voltage_falls_back_to_unknown_rows_witness:
  "hubType \<lparr>hubType = MOVE_HUB, autoParse = False\<rparr> \<noteq> WEDO2_SMART_HUB
   \<and> 6 \<le> length [0, 0, 100, 0, 200, 0 :: 8 word]
   \<and> MaxVoltageValue MOVE_HUB = None
   \<and> MaxVoltageRaw MOVE_HUB = None
   \<and> u16_le [0, 0, 100, 0, 200, 0] 4 = 200
   \<and> VoltageSensor_receive \<lparr>hubType = MOVE_HUB, autoParse = False\<rparr>
        (Some VoltageSensor_Mode_VOLTAGE) [0, 0, 100, 0, 200, 0]
      = Emits [EmitGlobal ''voltage'' (Val (Num (139038371491033 / 281474976710656)))]"
proof -
  have hub: "hubType \<lparr>hubType = MOVE_HUB, autoParse = False\<rparr> \<noteq> WEDO2_SMART_HUB"
    by simp
  have len: "6 \<le> length [0, 0, 100, 0, 200, 0 :: 8 word]"
    by simp
  have rows: "MaxVoltageValue (hubType \<lparr>hubType = MOVE_HUB, autoParse = False\<rparr>) = None
      \<and> MaxVoltageRaw (hubType \<lparr>hubType = MOVE_HUB, autoParse = False\<rparr>) = None"
    by simp
  have raw: "u16_le [0, 0, 100, 0, 200, 0] 4 = 200"
    unfolding u16_le_def by (simp only: u16_cat) simp
  have "VoltageSensor_receive \<lparr>hubType = MOVE_HUB, autoParse = False\<rparr>
          (Some VoltageSensor_Mode_VOLTAGE) [0, 0, 100, 0, 200, 0]
        = Emits [EmitGlobal ''voltage''
            (Val (js_divide (js_times (Num (of_nat (u16_le [0, 0, 100, 0, 200, 0] 4)))
                    (binary64 9.615)) (Num 3893)))]"
    using voltage_falls_back_to_unknown_rows [OF hub len] rows by blast
  then have "VoltageSensor_receive \<lparr>hubType = MOVE_HUB, autoParse = False\<rparr>
          (Some VoltageSensor_Mode_VOLTAGE) [0, 0, 100, 0, 200, 0]
        = Emits [EmitGlobal ''voltage'' (Val (Num (139038371491033 / 281474976710656)))]"
    by (simp only: raw of_nat_numeral double_200_volts)
  then show ?thesis
    using hub len raw by simp
qed


section \<open>Claims about the hub\<close>

lemma portMap_get_own: "map_of pm name = Some pid \<Longrightarrow> portMap_get pm name = Number pid"
  by (simp add: portMap_get_def)

lemma BaseHub_getDeviceAtPort_legal:
  "map_of (portMap s) name = Some pid \<Longrightarrow>
   BaseHub_getDeviceAtPort s name = Inr (map_of (attachedDevices s) pid)"
  by (simp add: BaseHub_getDeviceAtPort_def portMap_get_own)

text \<open>
  \<open>BaseHub.getDeviceAtPort\<close> throws for exactly the names that are neither a key of the
  port map nor a name every object inherits; \<open>Hub.getDeviceAtPort\<close> throws for port id
  0 as well.
\<close>

lemma BaseHub_getDeviceAtPort_throws_iff:
  "(\<exists>e. BaseHub_getDeviceAtPort s name = Inl e)
     \<longleftrightarrow> name \<notin> fst ` set (portMap s) \<and> name \<notin> set Object_prototype"
  by (auto simp: BaseHub_getDeviceAtPort_def portMap_get_def map_of_eq_None_iff [symmetric]
           split: option.splits)

lemma Hub_getDeviceAtPort_throws_iff:
  "(\<exists>e. Hub_getDeviceAtPort s name = Inl e)
     \<longleftrightarrow> (name \<notin> fst ` set (portMap s) \<and> name \<notin> set Object_prototype)
         \<or> map_of (portMap s) name = Some 0"
  by (auto simp: Hub_getDeviceAtPort_def portMap_get_def map_of_eq_None_iff [symmetric]
           split: option.splits)

lemma getDeviceAtPort_inherited:
  "BaseHub_getDeviceAtPort (new_hub [(''A'', 0), (''B'', 1)]) ''toString'' = Inr None"
  "Hub_getDeviceAtPort (new_hub [(''A'', 0), (''B'', 1)]) ''toString'' = Inr None"
  "BaseHub_getDeviceAtPort (new_hub [(''A'', 0), (''B'', 1)]) ''C'' = Inl (PortError ''C'')"
  by (simp_all add: BaseHub_getDeviceAtPort_def Hub_getDeviceAtPort_def portMap_get_def
        Object_prototype_def new_hub_def)

text \<open>
  Claim C2 fails in \<open>Hub.getDeviceAtPort\<close>, where the sibling \<open>BaseHub.getDeviceAtPort\<close>
  does what it says: a hub whose port \<open>A\<close> has id 0 answers a request for \<open>A\<close> with
  the port-not-found error, with or without a device on the port, where \<open>BaseHub\<close> returns
  the device or nothing.
\<close>

theorem Hub_getDeviceAtPort_rejects_port_id_0:
  "map_of (portMap (new_hub [(''A'', 0), (''B'', 1)])) ''A'' = Some 0
   \<and> Hub_getDeviceAtPort (new_hub [(''A'', 0), (''B'', 1)]) ''A'' = Inl (PortError ''A'')
   \<and> Hub_getDeviceAtPort
        (Hub_attachDevice \<lparr>oid = 1, portId = 0, devType = 8\<rparr> (new_hub [(''A'', 0), (''B'', 1)]))
        ''A'' = Inl (PortError ''A'')
   \<and> BaseHub_getDeviceAtPort (new_hub [(''A'', 0), (''B'', 1)]) ''A'' = Inr None
   \<and> (\<exists>s. BaseHub_attachDevice \<lparr>oid = 1, portId = 0, devType = 8\<rparr>
              (new_hub [(''A'', 0), (''B'', 1)]) = Inr s
          \<and> BaseHub_getDeviceAtPort s ''A'' = Inr (Some \<lparr>oid = 1, portId = 0, devType = 8\<rparr>))"
  by (simp add: Hub_getDeviceAtPort_def BaseHub_getDeviceAtPort_def portMap_get_def
        new_hub_def Hub_attachDevice_eq BaseHub_attachDevice_eq)

text \<open>
  Claim C9. \<open>_detachDevice\<close>, in \<open>BaseHub\<close> and in \<open>Hub\<close>, deletes the entry of the
  device's port and no other, emits one \<open>detach\<close> event, and leaves the pending callbacks
  and the port map as they were; it calls no callback and settles no promise.
\<close>

theorem detachDevice_leaves_waiters_pending:
  "attachCallbacks (BaseHub_detachDevice device s) = attachCallbacks s
   \<and> map_of (attachedDevices (BaseHub_detachDevice device s))
       = (map_of (attachedDevices s))(portId device := None)
   \<and> effects (BaseHub_detachDevice device s) = effects s @ [Emit ''detach'' device]
   \<and> calls_of (effects (BaseHub_detachDevice device s)) = calls_of (effects s)
   \<and> settled_of (effects (BaseHub_detachDevice device s)) = settled_of (effects s)
   \<and> portMap (BaseHub_detachDevice device s) = portMap s
   \<and> attachCallbacks (Hub_detachDevice device s) = attachCallbacks s
   \<and> map_of (attachedDevices (Hub_detachDevice device s))
       = (map_of (attachedDevices s))(portId device := None)
   \<and> effects (Hub_detachDevice device s) = effects s @ [Emit ''detach'' device]
   \<and> calls_of (effects (Hub_detachDevice device s)) = calls_of (effects s)
   \<and> settled_of (effects (Hub_detachDevice device s)) = settled_of (effects s)
   \<and> portMap (Hub_detachDevice device s) = portMap s"
  by (simp add: BaseHub_detachDevice_def Hub_detachDevice_def emit_def map_of_obj_delete
        calls_of_append settled_of_append)

text \<open>
  Claim C10. Attaching to a port that already holds a device, in \<open>BaseHub\<close> and in \<open>Hub\<close>:
  the call returns, the new device takes the entry of the port (every other entry stays),
  and the only event emitted is one \<open>attach\<close> for the new device; no \<open>detach\<close> is emitted
  for the device that was there.
\<close>

theorem attachDevice_replaces_silently:
  assumes "map_of (attachedDevices s) (portId device) = Some old"
  shows "(\<exists>s'. BaseHub_attachDevice device s = Inr s'
            \<and> map_of (attachedDevices s') = (map_of (attachedDevices s))(portId device \<mapsto> device)
            \<and> emits_of (effects s') = emits_of (effects s) @ [(''attach'', device)])
       \<and> map_of (attachedDevices (Hub_attachDevice device s))
            = (map_of (attachedDevices s))(portId device \<mapsto> device)
       \<and> emits_of (effects (Hub_attachDevice device s))
            = emits_of (effects s) @ [(''attach'', device)]"
  by (simp add: BaseHub_attachDevice_eq Hub_attachDevice_eq map_of_obj_set emits_of_append
        emits_of_call_effects)

text \<open>
  Port \<open>B\<close> (id 1) holds a light (type 8); a motor (type 2) is attached to the same
  port.
\<close>

theorem attachDevice_replaces_silently_witness:
  "map_of (attachedDevices
       \<lparr>attachedDevices = [(1, \<lparr>oid = 1, portId = 1, devType = 8\<rparr>)],
        portMap = [(''A'', 0), (''B'', 1)], attachCallbacks = [],
        effects = [Emit ''attach'' \<lparr>oid = 1, portId = 1, devType = 8\<rparr>]\<rparr>)
     (portId \<lparr>oid = 2, portId = 1, devType = 2\<rparr>)
     = Some \<lparr>oid = 1, portId = 1, devType = 8\<rparr>
   \<and> BaseHub_attachDevice \<lparr>oid = 2, portId = 1, devType = 2\<rparr>
       \<lparr>attachedDevices = [(1, \<lparr>oid = 1, portId = 1, devType = 8\<rparr>)],
        portMap = [(''A'', 0), (''B'', 1)], attachCallbacks = [],
        effects = [Emit ''attach'' \<lparr>oid = 1, portId = 1, devType = 8\<rparr>]\<rparr>
     = Inr \<lparr>attachedDevices = [(1, \<lparr>oid = 2, portId = 1, devType = 2\<rparr>)],
        portMap = [(''A'', 0), (''B'', 1)], attachCallbacks = [],
        effects = [Emit ''attach'' \<lparr>oid = 1, portId = 1, devType = 8\<rparr>,
                   Emit ''attach'' \<lparr>oid = 2, portId = 1, devType = 2\<rparr>]\<rparr>
   \<and> emits_of (effects (Hub_attachDevice \<lparr>oid = 2, portId = 1, devType = 2\<rparr>
       \<lparr>attachedDevices = [(1, \<lparr>oid = 1, portId = 1, devType = 8\<rparr>)],
        portMap = [(''A'', 0), (''B'', 1)], attachCallbacks = [],
        effects = [Emit ''attach'' \<lparr>oid = 1, portId = 1, devType = 8\<rparr>]\<rparr>))
     = [(''attach'', \<lparr>oid = 1, portId = 1, devType = 8\<rparr>),
        (''attach'', \<lparr>oid = 2, portId = 1, devType = 2\<rparr>)]"
proof -
  have held: "map_of (attachedDevices
       \<lparr>attachedDevices = [(1, \<lparr>oid = 1, portId = 1, devType = 8\<rparr>)],
        portMap = [(''A'', 0), (''B'', 1)], attachCallbacks = [],
        effects = [Emit ''attach'' \<lparr>oid = 1, portId = 1, devType = 8\<rparr>]\<rparr>)
     (portId \<lparr>oid = 2, portId = 1, devType = 2\<rparr>)
     = Some \<lparr>oid = 1, portId = 1, devType = 8\<rparr>"
    by simp
  have base: "BaseHub_attachDevice \<lparr>oid = 2, portId = 1, devType = 2\<rparr>
       \<lparr>attachedDevices = [(1, \<lparr>oid = 1, portId = 1, devType = 8\<rparr>)],
        portMap = [(''A'', 0), (''B'', 1)], attachCallbacks = [],
        effects = [Emit ''attach'' \<lparr>oid = 1, portId = 1, devType = 8\<rparr>]\<rparr>
     = Inr \<lparr>attachedDevices = [(1, \<lparr>oid = 2, portId = 1, devType = 2\<rparr>)],
        portMap = [(''A'', 0), (''B'', 1)], attachCallbacks = [],
        effects = [Emit ''attach'' \<lparr>oid = 1, portId = 1, devType = 8\<rparr>,
                   Emit ''attach'' \<lparr>oid = 2, portId = 1, devType = 2\<rparr>]\<rparr>"
    by (simp add: BaseHub_attachDevice_def emit_def)
  show ?thesis
    using attachDevice_replaces_silently [OF held] held base by simp
qed

text \<open>
  \<open>BaseHub._attachDevice\<close> returns for every hub state; it calls every pending callback
  exactly once, the most recently registered first; the callbacks left pending afterwards
  are those whose test failed, in their old order; and the promises resolved are those of
  the callbacks whose test held, each resolved with the new device.
\<close>

lemma BaseHub_attachDevice_scans_pending_callbacks:
  "\<exists>s'. BaseHub_attachDevice device s = Inr s'
      \<and> calls_of (effects s') = calls_of (effects s) @ rev (attachCallbacks s)
      \<and> attachCallbacks s'
          = filter (\<lambda>w. \<not> satisfied (portMap s) device w) (attachCallbacks s)
      \<and> settled_of (effects s')
          = settled_of (effects s)
            @ map (\<lambda>w. Resolve (promise w) device)
                (filter (satisfied (portMap s) device) (rev (attachCallbacks s)))"
  by (simp add: BaseHub_attachDevice_eq calls_of_append settled_of_append
        calls_of_call_effects settled_of_call_effects)

text \<open>
  \<open>Hub._attachDevice\<close> calls every pending callback once, in the order of registration,
  and leaves all of them pending, those whose test held included.
\<close>

lemma Hub_attachDevice_keeps_every_callback:
  "calls_of (effects (Hub_attachDevice device s)) = calls_of (effects s) @ attachCallbacks s"
  "attachCallbacks (Hub_attachDevice device s) = attachCallbacks s"
  "settled_of (effects (Hub_attachDevice device s))
     = settled_of (effects s)
       @ map (\<lambda>w. Resolve (promise w) device)
           (filter (satisfied (portMap s) device) (attachCallbacks s))"
  by (simp_all add: Hub_attachDevice_eq calls_of_append settled_of_append
        calls_of_call_effects settled_of_call_effects)

text \<open>
  Claim C1 holds of \<open>BaseHub._attachDevice\<close> and fails in \<open>Hub._attachDevice\<close>. Two
  waiters, 1 and then 2, wait for port \<open>B\<close> (id 1) of a hub; a light is attached to
  \<open>B\<close>, detached, and a motor is attached to \<open>B\<close>. \<open>Hub\<close> offers the light to waiter 1
  first; both waiters are resolved and both stay in the pending list, so the motor is
  offered to both again. \<open>BaseHub\<close>, on the same calls, offers the light to waiter 2
  first, removes both, and offers the motor to nobody.
\<close>

theorem Hub_attachDevice_keeps_resolved_waiters:
  "attachCallbacks
     (Hub_waitForDeviceAtPort 2 ''B''
       (Hub_waitForDeviceAtPort 1 ''B'' (new_hub [(''A'', 0), (''B'', 1)])))
     = [AtPort 1 ''B'', AtPort 2 ''B'']
   \<and> effects
       (Hub_attachDevice \<lparr>oid = 1, portId = 1, devType = 8\<rparr>
         (Hub_waitForDeviceAtPort 2 ''B''
           (Hub_waitForDeviceAtPort 1 ''B'' (new_hub [(''A'', 0), (''B'', 1)]))))
     = [Emit ''attach'' \<lparr>oid = 1, portId = 1, devType = 8\<rparr>,
        Called (AtPort 1 ''B''), Resolve 1 \<lparr>oid = 1, portId = 1, devType = 8\<rparr>,
        Called (AtPort 2 ''B''), Resolve 2 \<lparr>oid = 1, portId = 1, devType = 8\<rparr>]
   \<and> attachCallbacks
       (Hub_attachDevice \<lparr>oid = 1, portId = 1, devType = 8\<rparr>
         (Hub_waitForDeviceAtPort 2 ''B''
           (Hub_waitForDeviceAtPort 1 ''B'' (new_hub [(''A'', 0), (''B'', 1)]))))
     = [AtPort 1 ''B'', AtPort 2 ''B'']
   \<and> calls_of (effects
       (Hub_attachDevice \<lparr>oid = 2, portId = 1, devType = 2\<rparr>
         (Hub_detachDevice \<lparr>oid = 1, portId = 1, devType = 8\<rparr>
           (Hub_attachDevice \<lparr>oid = 1, portId = 1, devType = 8\<rparr>
             (Hub_waitForDeviceAtPort 2 ''B''
               (Hub_waitForDeviceAtPort 1 ''B'' (new_hub [(''A'', 0), (''B'', 1)])))))))
     = [AtPort 1 ''B'', AtPort 2 ''B'', AtPort 1 ''B'', AtPort 2 ''B'']
   \<and> BaseHub_run
       [WaitForDeviceAtPort 1 ''B'', WaitForDeviceAtPort 2 ''B'',
        Attach \<lparr>oid = 1, portId = 1, devType = 8\<rparr>,
        Detach \<lparr>oid = 1, portId = 1, devType = 8\<rparr>,
        Attach \<lparr>oid = 2, portId = 1, devType = 2\<rparr>]
       (new_hub [(''A'', 0), (''B'', 1)])
     = Inr \<lparr>attachedDevices = [(1, \<lparr>oid = 2, portId = 1, devType = 2\<rparr>)],
            portMap = [(''A'', 0), (''B'', 1)],
            attachCallbacks = [],
            effects =
              [Emit ''attach'' \<lparr>oid = 1, portId = 1, devType = 8\<rparr>,
               Called (AtPort 2 ''B''), Resolve 2 \<lparr>oid = 1, portId = 1, devType = 8\<rparr>,
               Called (AtPort 1 ''B''), Resolve 1 \<lparr>oid = 1, portId = 1, devType = 8\<rparr>,
               Emit ''detach'' \<lparr>oid = 1, portId = 1, devType = 8\<rparr>,
               Emit ''attach'' \<lparr>oid = 2, portId = 1, devType = 2\<rparr>]\<rparr>"
  by (simp add: Hub_attachDevice_eq BaseHub_attachDevice_eq Hub_waitForDeviceAtPort_def
        BaseHub_waitForDeviceAtPort_def Hub_getDeviceAtPort_def BaseHub_getDeviceAtPort_def
        Hub_detachDevice_def BaseHub_detachDevice_def emit_def obj_delete_def
        portMap_get_def new_hub_def call_effects_def portName_def)

text \<open>
  A run of \<open>BaseHub\<close>: waiters 1 and 3 wait for port \<open>B\<close>, waiter 2 for a device of type
  2. A light (type 8) attached to \<open>B\<close> is offered to 3, then 2, then 1; 3 and 1 are
  resolved and removed, 2 stays pending.
\<close>

lemma BaseHub_attachDevice_example:
  "BaseHub_run
     [WaitForDeviceAtPort 1 ''B'', WaitForDeviceByType 2 2, WaitForDeviceAtPort 3 ''B'',
      Attach \<lparr>oid = 1, portId = 1, devType = 8\<rparr>]
     (new_hub [(''A'', 0), (''B'', 1)])
   = Inr \<lparr>attachedDevices = [(1, \<lparr>oid = 1, portId = 1, devType = 8\<rparr>)],
          portMap = [(''A'', 0), (''B'', 1)],
          attachCallbacks = [ByType 2 2],
          effects =
            [Emit ''attach'' \<lparr>oid = 1, portId = 1, devType = 8\<rparr>,
             Called (AtPort 3 ''B''), Resolve 3 \<lparr>oid = 1, portId = 1, devType = 8\<rparr>,
             Called (ByType 2 2),
             Called (AtPort 1 ''B''), Resolve 1 \<lparr>oid = 1, portId = 1, devType = 8\<rparr>]\<rparr>"
  by (simp add: BaseHub_attachDevice_eq BaseHub_waitForDeviceAtPort_def
        BaseHub_getDeviceAtPort_def portMap_get_def waitForDeviceByType_def
        getDevicesByType_def getDevices_def obj_values_def new_hub_def call_effects_def
        portName_def)

lemma distinct_keyed:
  assumes "distinct (map code (map fst entries))" and "(name, cls) \<in> set entries"
  shows "map_of (keyed code entries) (code name) = Some cls"
    and "map_of (rev (keyed code entries)) (code name) = Some cls"
proof -
  have keys: "map fst (keyed code entries) = map code (map fst entries)"
    by (simp add: keyed_def)
  have mem: "(code name, cls) \<in> set (keyed code entries)"
    using assms(2) by (force simp: keyed_def)
  show "map_of (keyed code entries) (code name) = Some cls"
    using assms(1) mem by (simp add: keys)
  show "map_of (rev (keyed code entries)) (code name) = Some cls"
    using assms(1) mem by (simp add: keys rev_map [symmetric] del: map_map)
qed

lemma not_keyed:
  assumes "k \<notin> code ` fst ` set entries"
  shows "map_of (keyed code entries) k = None" and "map_of (rev (keyed code entries)) k = None"
proof -
  have "fst ` set (keyed code entries) = code ` fst ` set entries"
    by (force simp: keyed_def)
  with assms show "map_of (keyed code entries) k = None"
    and "map_of (rev (keyed code entries)) k = None"
    by (simp_all add: map_of_eq_None_iff)
qed

lemma Hub_cases_in_deviceConstructors: "set Hub_cases \<subseteq> set deviceConstructors"
  by (simp add: Hub_cases_def deviceConstructors_def)

lemma distinct_Hub_cases:
  assumes "distinct (map code (map fst deviceConstructors))"
  shows "distinct (map code (map fst Hub_cases))"
proof -
  have "inj_on code (set (map fst deviceConstructors))"
    using assms by (simp only: distinct_map)
  moreover have "set (map fst Hub_cases) \<subseteq> set (map fst deviceConstructors)"
    using Hub_cases_in_deviceConstructors by auto
  ultimately have "inj_on code (set (map fst Hub_cases))"
    by (rule inj_on_subset)
  moreover have "distinct (map fst Hub_cases)"
    by (simp add: Hub_cases_def)
  ultimately show ?thesis
    by (simp only: distinct_map simp_thms)
qed

text \<open>
  Claim C7. \<open>_createDevice\<close> returns an object for every type code and port id; it has no
  failing path of its own. The numbers of \<open>Consts.DeviceType\<close> are a parameter, taken to
  be pairwise different for the registered names. A code that belongs to no registered
  name yields \<open>new Device(this, portId, undefined, deviceType)\<close>, the generic device with
  no mode map; the code of a registered name yields \<open>new C(this, portId)\<close> for the class
  \<open>C\<close> registered under that name. This holds for the table of \<open>BaseHub\<close> and for the
  \<open>switch\<close> of \<open>Hub\<close>, each with its own set of registered names.
\<close>

theorem createDevice_generic_or_registered:
  assumes "distinct (map code (map fst deviceConstructors))"
  shows "(deviceType \<notin> code ` fst ` set deviceConstructors \<longrightarrow>
            BaseHub_createDevice code deviceType pid = NewDevice pid None deviceType)
       \<and> (\<forall>name cls. (name, cls) \<in> set deviceConstructors \<longrightarrow>
            BaseHub_createDevice code (code name) pid = New cls pid)
       \<and> (deviceType \<notin> code ` fst ` set Hub_cases \<longrightarrow>
            Hub_createDevice code deviceType pid = NewDevice pid None deviceType)
       \<and> (\<forall>name cls. (name, cls) \<in> set Hub_cases \<longrightarrow>
            Hub_createDevice code (code name) pid = New cls pid)"
proof -
  have a: "deviceType \<notin> code ` fst ` set deviceConstructors \<longrightarrow>
            BaseHub_createDevice code deviceType pid = NewDevice pid None deviceType"
    by (simp add: BaseHub_createDevice_def literal_get_def not_keyed)
  have b: "\<forall>name cls. (name, cls) \<in> set deviceConstructors \<longrightarrow>
            BaseHub_createDevice code (code name) pid = New cls pid"
    using distinct_keyed(2) [OF assms]
    by (simp add: BaseHub_createDevice_def literal_get_def)
  have c: "deviceType \<notin> code ` fst ` set Hub_cases \<longrightarrow>
            Hub_createDevice code deviceType pid = NewDevice pid None deviceType"
    by (simp add: Hub_createDevice_def switch_get_def not_keyed)
  have d: "\<forall>name cls. (name, cls) \<in> set Hub_cases \<longrightarrow>
            Hub_createDevice code (code name) pid = New cls pid"
    using distinct_keyed(1) [OF distinct_Hub_cases [OF assms]]
    by (simp add: Hub_createDevice_def switch_get_def)
  show ?thesis
    using a b c d by blast
qed


lemma sample_codes:
  "map sample_code (map fst deviceConstructors)
     = [0, 1, 2, 3, 4, 5, 6, 7, 8, 9, 10, 11, 12, 13, 14, 15, 16, 17, 18, 19, 20, 21]"
  by (simp add: sample_code_def deviceConstructors_def)

lemma sample_codes_Hub:
  "map sample_code (map fst Hub_cases) = [0, 1, 2, 3, 4, 5, 10, 11, 12, 13]"
  by (simp add: sample_code_def deviceConstructors_def Hub_cases_def)

text \<open>
  With the sample numbering: code 99 is no registered type and gives the generic device;
  the voltage sensor is registered in \<open>BaseHub\<close> and not among the labels of \<open>Hub\<close>; the
  light is registered in both.
\<close>

theorem createDevice_generic_or_registered_witness:
  "distinct (map sample_code (map fst deviceConstructors))
   \<and> 99 \<notin> sample_code ` fst ` set deviceConstructors
   \<and> BaseHub_createDevice sample_code 99 4 = NewDevice 4 None 99
   \<and> (VOLTAGE_SENSOR, VoltageSensor) \<in> set deviceConstructors
   \<and> BaseHub_createDevice sample_code (sample_code VOLTAGE_SENSOR) 4 = New VoltageSensor 4
   \<and> sample_code VOLTAGE_SENSOR \<notin> sample_code ` fst ` set Hub_cases
   \<and> Hub_createDevice sample_code (sample_code VOLTAGE_SENSOR) 4
       = NewDevice 4 None (sample_code VOLTAGE_SENSOR)
   \<and> (LIGHT, Light) \<in> set Hub_cases
   \<and> Hub_createDevice sample_code (sample_code LIGHT) 0 = New Light 0"
proof -
  have codes: "distinct (map sample_code (map fst deviceConstructors))"
    by (simp only: sample_codes) simp
  have img: "sample_code ` fst ` set deviceConstructors
               = set (map sample_code (map fst deviceConstructors))"
    "sample_code ` fst ` set Hub_cases = set (map sample_code (map fst Hub_cases))"
    by (simp_all only: set_map)
  have voltage: "sample_code VOLTAGE_SENSOR = 14"
    by (simp add: sample_code_def deviceConstructors_def)
  have unknown: "99 \<notin> sample_code ` fst ` set deviceConstructors"
    by (simp only: img sample_codes) simp
  have not_in_Hub: "sample_code VOLTAGE_SENSOR \<notin> sample_code ` fst ` set Hub_cases"
    by (simp only: img sample_codes_Hub voltage) simp
  have reg: "(VOLTAGE_SENSOR, VoltageSensor) \<in> set deviceConstructors"
    by (simp add: deviceConstructors_def)
  have light: "(LIGHT, Light) \<in> set Hub_cases"
    by (simp add: Hub_cases_def)
  note at_99 = createDevice_generic_or_registered [OF codes, of 99 4]
  note at_voltage = createDevice_generic_or_registered
                      [OF codes, of "sample_code VOLTAGE_SENSOR" 4]
  note at_light = createDevice_generic_or_registered [OF codes, of 99 0]
  have a: "BaseHub_createDevice sample_code 99 4 = NewDevice 4 None 99"
    using at_99 unknown by blast
  have b: "BaseHub_createDevice sample_code (sample_code VOLTAGE_SENSOR) 4 = New VoltageSensor 4"
    using at_99 reg by blast
  have c: "Hub_createDevice sample_code (sample_code VOLTAGE_SENSOR) 4
       = NewDevice 4 None (sample_code VOLTAGE_SENSOR)"
    using at_voltage not_in_Hub by blast
  have d: "Hub_createDevice sample_code (sample_code LIGHT) 0 = New Light 0"
    using at_light light by blast
  show ?thesis
    using codes unknown a reg b not_in_Hub c light d by blast
qed

lemma call_changes:
  assumes "BaseHub_call c s = Inr s'"
  shows "portMap s' = portMap s"
    and "attachedDevices s' =
           (case c of
              Attach device \<Rightarrow> obj_set (portId device) device (attachedDevices s)
            | Detach device \<Rightarrow> obj_delete (portId device) (attachedDevices s)
            | WaitForDeviceAtPort p name \<Rightarrow> attachedDevices s
            | WaitForDeviceByType p deviceType \<Rightarrow> attachedDevices s)"
  using assms
  by (cases c;
      auto simp: BaseHub_attachDevice_eq BaseHub_detachDevice_def emit_def
        BaseHub_waitForDeviceAtPort_def waitForDeviceByType_def
        split: sum.splits option.splits list.splits)+

lemma call_returns: "\<exists>s'. BaseHub_call c s = Inr s'"
  by (cases c) (simp_all add: BaseHub_attachDevice_eq)

lemma run_returns: "\<exists>s'. BaseHub_run calls s = Inr s'"
proof (induction calls arbitrary: s)
  case Nil
  then show ?case by simp
next
  case (Cons c calls)
  obtain s1 where "BaseHub_call c s = Inr s1"
    using call_returns by blast
  with Cons show ?case by simp
qed

lemma run_portMap: "BaseHub_run calls s = Inr s' \<Longrightarrow> portMap s' = portMap s"
proof (induction calls arbitrary: s)
  case Nil
  then show ?case by simp
next
  case (Cons c calls)
  then show ?case
    by (auto split: sum.splits dest: call_changes(1))
qed

text \<open>A port stays empty as long as no call attaches a device to it.\<close>

lemma call_keeps_port_empty:
  assumes "BaseHub_call c s = Inr s'" and "\<not> attaches_at pid c"
    and "map_of (attachedDevices s) pid = None"
  shows "map_of (attachedDevices s') pid = None"
  using assms call_changes(2) [OF assms(1)]
  by (cases c) (simp_all add: map_of_obj_set map_of_obj_delete)

lemma run_keeps_port_empty:
  assumes "BaseHub_run calls s = Inr s'" and "\<forall>c \<in> set calls. \<not> attaches_at pid c"
    and "map_of (attachedDevices s) pid = None"
  shows "map_of (attachedDevices s') pid = None"
  using assms
proof (induction calls arbitrary: s)
  case Nil
  then show ?case by simp
next
  case (Cons c calls)
  from Cons.prems(1) obtain s1 where s1: "BaseHub_call c s = Inr s1"
    and rest: "BaseHub_run calls s1 = Inr s'"
    by (auto split: sum.splits)
  have "map_of (attachedDevices s1) pid = None"
    using call_keeps_port_empty [OF s1] Cons.prems(2,3) by simp
  with Cons.IH [OF rest] Cons.prems(2) show ?case by simp
qed

text \<open>
  The table of attached devices keeps its keys ascending without repetition, and every
  device sits under its own port id.
\<close>

lemma obj_delete_subset: "set (obj_delete k xs) \<subseteq> set xs"
  by (auto simp: obj_delete_def)

lemma call_keeps_table:
  assumes "BaseHub_call c s = Inr s'"
    and "sorted_wrt (<) (map fst (attachedDevices s))"
    and "\<forall>entry \<in> set (attachedDevices s). portId (snd entry) = fst entry"
  shows "sorted_wrt (<) (map fst (attachedDevices s'))"
    and "\<forall>entry \<in> set (attachedDevices s'). portId (snd entry) = fst entry"
proof -
  show "sorted_wrt (<) (map fst (attachedDevices s'))"
    using assms(2) call_changes(2) [OF assms(1)]
    by (cases c) (simp_all add: sorted_obj_set sorted_obj_delete)
  show "\<forall>entry \<in> set (attachedDevices s'). portId (snd entry) = fst entry"
  proof (cases c)
    case (Attach device)
    then have "set (attachedDevices s')
                 \<subseteq> insert (portId device, device) (set (attachedDevices s))"
      using call_changes(2) [OF assms(1)] set_obj_set by simp
    with assms(3) show ?thesis by auto
  next
    case (Detach device)
    then have "set (attachedDevices s') \<subseteq> set (attachedDevices s)"
      using call_changes(2) [OF assms(1)] obj_delete_subset by simp
    with assms(3) show ?thesis by auto
  next
    case (WaitForDeviceAtPort p name)
    with assms(3) call_changes(2) [OF assms(1)] show ?thesis by simp
  next
    case (WaitForDeviceByType p deviceType)
    with assms(3) call_changes(2) [OF assms(1)] show ?thesis by simp
  qed
qed

lemma run_keeps_table:
  assumes "BaseHub_run calls s = Inr s'"
    and "sorted_wrt (<) (map fst (attachedDevices s))"
    and "\<forall>entry \<in> set (attachedDevices s). portId (snd entry) = fst entry"
  shows "sorted_wrt (<) (map fst (attachedDevices s'))
       \<and> (\<forall>entry \<in> set (attachedDevices s'). portId (snd entry) = fst entry)"
  using assms
proof (induction calls arbitrary: s)
  case Nil
  then show ?case by simp
next
  case (Cons c calls)
  from Cons.prems(1) obtain s1 where s1: "BaseHub_call c s = Inr s1"
    and rest: "BaseHub_run calls s1 = Inr s'"
    by (auto split: sum.splits)
  show ?case
    using Cons.IH [OF rest call_keeps_table [OF s1 Cons.prems(2,3)]] .
qed

lemma table_one_device_per_port:
  assumes "sorted_wrt (<) (map fst (attachedDevices s))"
    and "\<forall>entry \<in> set (attachedDevices s). portId (snd entry) = fst entry"
  shows "distinct (map portId (getDevices s))"
proof -
  have "map portId (getDevices s) = map fst (attachedDevices s)"
    using assms(2) by (simp add: getDevices_def obj_values_def)
  moreover have "distinct (map fst (attachedDevices s))"
    using assms(1) by (simp add: strict_sorted_iff)
  ultimately show ?thesis by simp
qed

text \<open>
  Claim C8. In every state a \<open>BaseHub\<close> reaches from its constructor, the devices that
  \<open>getDevices\<close> lists have pairwise different port ids: at most one device per port.
  From such a state, after \<open>_detachDevice\<close> for a device on a named port and any further
  calls none of which attaches to that port, \<open>getDeviceAtPort\<close> for the name returns
  without error and returns nothing; as soon as \<open>_attachDevice\<close> then stores a device at
  that port id, \<open>getDeviceAtPort\<close> returns that device.
\<close>

theorem one_device_per_port_and_absent_after_detach:
  assumes "BaseHub_run before (new_hub pm) = Inr s"
    and "map_of pm name = Some (portId device)"
    and "\<forall>c \<in> set later. \<not> attaches_at (portId device) c"
    and "portId device' = portId device"
  shows "distinct (map portId (getDevices s))
       \<and> (\<exists>s'. BaseHub_run (Detach device # later) s = Inr s'
             \<and> BaseHub_getDeviceAtPort s' name = Inr None
             \<and> distinct (map portId (getDevices s'))
             \<and> (\<exists>s''. BaseHub_call (Attach device') s' = Inr s''
                   \<and> BaseHub_getDeviceAtPort s'' name = Inr (Some device')
                   \<and> distinct (map portId (getDevices s''))))"
proof -
  have pm: "portMap s = pm"
    using run_portMap [OF assms(1)] by (simp add: new_hub_def)
  have table: "sorted_wrt (<) (map fst (attachedDevices s))
       \<and> (\<forall>entry \<in> set (attachedDevices s). portId (snd entry) = fst entry)"
    using run_keeps_table [OF assms(1)] by (simp add: new_hub_def)
  obtain s' where s': "BaseHub_run (Detach device # later) s = Inr s'"
    using run_returns by blast
  then have later: "BaseHub_run later (BaseHub_detachDevice device s) = Inr s'"
    by simp
  have "map_of (attachedDevices (BaseHub_detachDevice device s)) (portId device) = None"
    by (simp add: BaseHub_detachDevice_def emit_def map_of_obj_delete)
  then have empty: "map_of (attachedDevices s') (portId device) = None"
    using run_keeps_port_empty [OF later assms(3)] by simp
  have pm': "portMap s' = pm"
    using run_portMap [OF s'] pm by simp
  have absent: "BaseHub_getDeviceAtPort s' name = Inr None"
    using assms(2) pm' empty by (simp add: BaseHub_getDeviceAtPort_legal)
  have table': "sorted_wrt (<) (map fst (attachedDevices s'))
       \<and> (\<forall>entry \<in> set (attachedDevices s'). portId (snd entry) = fst entry)"
    using run_keeps_table [OF s'] table by blast
  obtain s'' where s'': "BaseHub_call (Attach device') s' = Inr s''"
    using call_returns by blast
  have "map_of (attachedDevices s'') (portId device) = Some device'"
    using call_changes(2) [OF s''] assms(4) by (simp add: map_of_obj_set)
  moreover have "portMap s'' = pm"
    using call_changes(1) [OF s''] pm' by simp
  ultimately have present: "BaseHub_getDeviceAtPort s'' name = Inr (Some device')"
    using assms(2) by (simp add: BaseHub_getDeviceAtPort_legal)
  have table'': "sorted_wrt (<) (map fst (attachedDevices s''))
       \<and> (\<forall>entry \<in> set (attachedDevices s''). portId (snd entry) = fst entry)"
    using call_keeps_table [OF s''] table' by blast
  show ?thesis
    using table table' table'' s' absent s'' present
    by (auto intro: table_one_device_per_port)
qed

text \<open>
  A hub with ports \<open>A\<close> (id 0) and \<open>B\<close> (id 1): a light is attached to \<open>A\<close> and to \<open>B\<close>;
  the one on \<open>A\<close> is detached, the one on \<open>B\<close> is replaced by a motor and a waiter for
  \<open>A\<close> is registered; port \<open>A\<close> reads as empty until a motor is attached to it.
\<close>

theorem one_device_per_port_and_absent_after_detach_witness:
  "BaseHub_run [Attach \<lparr>oid = 1, portId = 0, devType = 8\<rparr>,
                Attach \<lparr>oid = 2, portId = 1, devType = 8\<rparr>]
       (new_hub [(''A'', 0), (''B'', 1)])
     = Inr \<lparr>attachedDevices = [(0, \<lparr>oid = 1, portId = 0, devType = 8\<rparr>),
                               (1, \<lparr>oid = 2, portId = 1, devType = 8\<rparr>)],
            portMap = [(''A'', 0), (''B'', 1)], attachCallbacks = [],
            effects = [Emit ''attach'' \<lparr>oid = 1, portId = 0, devType = 8\<rparr>,
                       Emit ''attach'' \<lparr>oid = 2, portId = 1, devType = 8\<rparr>]\<rparr>
   \<and> (\<exists>s'. BaseHub_run
              [Detach \<lparr>oid = 1, portId = 0, devType = 8\<rparr>,
               Attach \<lparr>oid = 3, portId = 1, devType = 2\<rparr>,
               WaitForDeviceAtPort 1 ''A'']
              \<lparr>attachedDevices = [(0, \<lparr>oid = 1, portId = 0, devType = 8\<rparr>),
                                  (1, \<lparr>oid = 2, portId = 1, devType = 8\<rparr>)],
               portMap = [(''A'', 0), (''B'', 1)], attachCallbacks = [],
               effects = [Emit ''attach'' \<lparr>oid = 1, portId = 0, devType = 8\<rparr>,
                          Emit ''attach'' \<lparr>oid = 2, portId = 1, devType = 8\<rparr>]\<rparr>
            = Inr s'
          \<and> BaseHub_getDeviceAtPort s' ''A'' = Inr None
          \<and> (\<exists>s''. BaseHub_call (Attach \<lparr>oid = 4, portId = 0, devType = 2\<rparr>) s' = Inr s''
                \<and> BaseHub_getDeviceAtPort s'' ''A''
                    = Inr (Some \<lparr>oid = 4, portId = 0, devType = 2\<rparr>)))"
proof -
  have reach: "BaseHub_run [Attach \<lparr>oid = 1, portId = 0, devType = 8\<rparr>,
                Attach \<lparr>oid = 2, portId = 1, devType = 8\<rparr>]
       (new_hub [(''A'', 0), (''B'', 1)])
     = Inr \<lparr>attachedDevices = [(0, \<lparr>oid = 1, portId = 0, devType = 8\<rparr>),
                               (1, \<lparr>oid = 2, portId = 1, devType = 8\<rparr>)],
            portMap = [(''A'', 0), (''B'', 1)], attachCallbacks = [],
            effects = [Emit ''attach'' \<lparr>oid = 1, portId = 0, devType = 8\<rparr>,
                       Emit ''attach'' \<lparr>oid = 2, portId = 1, devType = 8\<rparr>]\<rparr>"
    by (simp add: BaseHub_attachDevice_eq new_hub_def)
  have name: "map_of [(''A'', 0), (''B'', 1)] ''A''
                = Some (portId \<lparr>oid = 1, portId = 0, devType = 8\<rparr>)"
    by simp
  have later: "\<forall>c \<in> set [Attach \<lparr>oid = 3, portId = 1, devType = 2\<rparr>, WaitForDeviceAtPort 1 ''A''].
                 \<not> attaches_at (portId \<lparr>oid = 1, portId = 0, devType = 8\<rparr>) c"
    by simp
  have same: "portId \<lparr>oid = 4, portId = 0, devType = 2\<rparr>
                = portId \<lparr>oid = 1, portId = 0, devType = 8\<rparr>"
    by simp
  show ?thesis
    using one_device_per_port_and_absent_after_detach [OF reach name later same] reach
    by blast
qed

end
